theory Spec2Isabelle
  imports
    Main
    "HOL-Library.AList"
    "HOL-Library.Multiset"
    "HOL-Library.Char_ord"
    "HOL-Library.List_Lexorder"
    "HOL-Library.Product_Lexorder"
begin

section \<open>The timetable solver of \<^verbatim>\<open>csp_solver.py\<close>\<close>

text \<open>
  A shallow embedding of class \<^verbatim>\<open>TimetableCSP\<close>. Python dictionaries keep their insertion
  order and that order is visible (rooms are enumerated in it, the assignment is projected
  in it), so a dictionary is an association list with distinct keys: \<open>map_of\<close> looks a
  key up, \<open>AList.update\<close> is \<^verbatim>\<open>d[k] = v\<close> (a new key goes to the end, an old key keeps
  its place) and \<open>AList.delete\<close> is \<^verbatim>\<open>del d[k]\<close>. A string is the list of the bytes of
  its UTF-8 encoding; the cells of the data frames are strings and integers. A missing
  key is the error value \<open>KeyError\<close>. Printing and the wall clock are left out.
\<close>

subsection \<open>String helpers\<close>

text \<open>
  \<^verbatim>\<open>str.lower\<close> on the ASCII letters. The only use of the lowered strings is the search for
  \<^verbatim>\<open>'lecture'\<close> and \<^verbatim>\<open>'lab'\<close>, and lowering a character outside ASCII produces none of their
  letters.
\<close>

definition char_lower :: "char \<Rightarrow> char" where
  "char_lower c =
     (if CHR ''A'' \<le> c \<and> c \<le> CHR ''Z'' then char_of (of_char c + (32::nat)) else c)"

definition lower :: "string \<Rightarrow> string" where
  "lower s = map char_lower s"

text \<open>\<^verbatim>\<open>needle in hay\<close> for strings: the needle occurs as a contiguous block.\<close>

fun is_prefix :: "string \<Rightarrow> string \<Rightarrow> bool" where
  "is_prefix [] ys = True"
| "is_prefix (x # xs) [] = False"
| "is_prefix (x # xs) (y # ys) = (x = y \<and> is_prefix xs ys)"

fun str_in :: "string \<Rightarrow> string \<Rightarrow> bool" where
  "str_in needle [] = (needle = [])"
| "str_in needle (h # hs) = (is_prefix needle (h # hs) \<or> str_in needle hs)"

text \<open>
  \<^verbatim>\<open>s.split(',')\<close>: one piece more than there are commas, empty pieces kept.
\<close>

fun split_comma :: "string \<Rightarrow> string list" where
  "split_comma [] = [[]]"
| "split_comma (c # cs) =
     (if c = CHR '','' then [] # split_comma cs
      else (case split_comma cs of
              [] \<Rightarrow> [[c]]
            | w # ws \<Rightarrow> (c # w) # ws))"

text \<open>
  The white space of \<^verbatim>\<open>str.strip()\<close>, each character in its UTF-8 bytes: the ASCII ones
  (tab, line feed, vertical tab, form feed, carriage return, the four separators 28 to 31,
  the blank), then U+0085, U+00A0, U+1680, U+2000 to U+200A, U+2028, U+2029, U+202F,
  U+205F and U+3000.
\<close>

definition white_space :: "string list" where
  "white_space =
     [[CHR 0x09], [CHR 0x0A], [CHR 0x0B], [CHR 0x0C], [CHR 0x0D],
      [CHR 0x1C], [CHR 0x1D], [CHR 0x1E], [CHR 0x1F], [CHR 0x20],
      [CHR 0xC2, CHR 0x85], [CHR 0xC2, CHR 0xA0],
      [CHR 0xE1, CHR 0x9A, CHR 0x80],
      [CHR 0xE2, CHR 0x80, CHR 0x80], [CHR 0xE2, CHR 0x80, CHR 0x81],
      [CHR 0xE2, CHR 0x80, CHR 0x82], [CHR 0xE2, CHR 0x80, CHR 0x83],
      [CHR 0xE2, CHR 0x80, CHR 0x84], [CHR 0xE2, CHR 0x80, CHR 0x85],
      [CHR 0xE2, CHR 0x80, CHR 0x86], [CHR 0xE2, CHR 0x80, CHR 0x87],
      [CHR 0xE2, CHR 0x80, CHR 0x88], [CHR 0xE2, CHR 0x80, CHR 0x89],
      [CHR 0xE2, CHR 0x80, CHR 0x8A],
      [CHR 0xE2, CHR 0x80, CHR 0xA8], [CHR 0xE2, CHR 0x80, CHR 0xA9],
      [CHR 0xE2, CHR 0x80, CHR 0xAF],
      [CHR 0xE2, CHR 0x81, CHR 0x9F],
      [CHR 0xE3, CHR 0x80, CHR 0x80]]"

text \<open>
  Drop from the front of a string every character of a given list, as long as there is
  one.
\<close>

function drop_leading :: "string list \<Rightarrow> string \<Rightarrow> string" where
  "drop_leading ws s =
     (case find (\<lambda>w. w \<noteq> [] \<and> is_prefix w s) ws of
        None \<Rightarrow> s
      | Some w \<Rightarrow> drop_leading ws (drop (length w) s))"
  by pat_completeness auto
termination
proof (relation "measure (\<lambda>(ws, s). length s)")
  show "wf (measure (\<lambda>(ws, s). length s))" by simp
next
  fix ws :: "string list" and s w :: string
  assume "find (\<lambda>w. w \<noteq> [] \<and> is_prefix w s) ws = Some w"
  then have "w \<noteq> []" and "is_prefix w s" by (auto simp: find_Some_iff)
  then have "s \<noteq> []" by (cases w; cases s) auto
  with \<open>w \<noteq> []\<close> show "((ws, drop (length w) s), (ws, s)) \<in> measure (\<lambda>(ws, s). length s)"
    by (cases w) auto
qed

declare drop_leading.simps [simp del]

text \<open>
  \<^verbatim>\<open>str.strip()\<close>: the white space at the front goes, then the white space at the end
  (the white space at the front of the reversed string, each character reversed).
\<close>

definition strip :: "string \<Rightarrow> string" where
  "strip s = rev (drop_leading (map rev white_space) (rev (drop_leading white_space s)))"

text \<open>
  \<^verbatim>\<open>[c.strip() for c in str(field).split(',') if c.strip()]\<close>, the parser of both
  delimited course-id lists.
\<close>

definition parse_id_list :: "string \<Rightarrow> string list" where
  "parse_id_list field = map strip (filter (\<lambda>c. strip c \<noteq> []) (split_comma field))"

subsection \<open>Input records\<close>

text \<open>
  The five data frames are lists of rows. Courses and rooms both have a column
  \<^verbatim>\<open>Type\<close>; the two fields are told apart by their prefix here.
\<close>

record course_row =
  CourseID :: string
  CourseName :: string
  CourseType :: string
  Credits :: int

record instructor_row =
  InstructorID :: string
  Name :: string
  QualifiedCourses :: string
  PreferredSlots :: string

record room_row =
  RoomID :: string
  RoomType :: string
  Capacity :: int

record timeslot_row =
  TimeSlotID :: string
  Day :: string
  StartTime :: string
  EndTime :: string

record section_row =
  SectionID :: string
  StudentCount :: int
  Courses :: string

record data =
  courses_df :: "course_row list"
  instructors_df :: "instructor_row list"
  rooms_df :: "room_row list"
  timeslots_df :: "timeslot_row list"
  sections_df :: "section_row list"

subsection \<open>The object: parsed tables, variables, domains\<close>

record instructor_info =
  i_name :: string
  i_courses :: "string list"
  i_preferences :: string

record section_info =
  s_student_count :: int
  s_courses :: "string list"

record course_info =
  c_name :: string
  c_type :: string
  c_credits :: int

record room_info =
  r_type :: string
  r_capacity :: int

record timeslot =
  ts_id :: string
  ts_day :: string
  ts_start :: string
  ts_end :: string

record var_info =
  section_id :: string
  course_id :: string
  student_count :: int
  course_type :: string
  course_name :: string

record domain_value =
  room :: string
  timeslot_id :: string
  day :: string
  start_time :: string
  end_time :: string
  instructor_id :: string
  instructor_name :: string

type_synonym assignment = "(string \<times> domain_value) list"

record csp =
  instructor_courses :: "(string \<times> instructor_info) list"
  section_courses :: "(string \<times> section_info) list"
  courses :: "(string \<times> course_info) list"
  rooms :: "(string \<times> room_info) list"
  timeslots :: "timeslot list"
  variables :: "string list"
  domains :: "(string \<times> domain_value list) list"
  variable_info :: "(string \<times> var_info) list"

datatype error = KeyError | IndexError

subsection \<open>\<^verbatim>\<open>_parse_data\<close>\<close>

definition parse_instructors :: "instructor_row list \<Rightarrow> (string \<times> instructor_info) list" where
  "parse_instructors rows =
     foldl (\<lambda>d r. AList.update (InstructorID r)
                     \<lparr>i_name = Name r,
                      i_courses = parse_id_list (QualifiedCourses r),
                      i_preferences = PreferredSlots r\<rparr> d) [] rows"

definition parse_sections :: "section_row list \<Rightarrow> (string \<times> section_info) list" where
  "parse_sections rows =
     foldl (\<lambda>d r. AList.update (SectionID r)
                     \<lparr>s_student_count = StudentCount r,
                      s_courses = parse_id_list (Courses r)\<rparr> d) [] rows"

definition parse_courses :: "course_row list \<Rightarrow> (string \<times> course_info) list" where
  "parse_courses rows =
     foldl (\<lambda>d r. AList.update (CourseID r)
                     \<lparr>c_name = CourseName r, c_type = CourseType r, c_credits = Credits r\<rparr> d)
           [] rows"

definition parse_rooms :: "room_row list \<Rightarrow> (string \<times> room_info) list" where
  "parse_rooms rows =
     foldl (\<lambda>d r. AList.update (RoomID r) \<lparr>r_type = RoomType r, r_capacity = Capacity r\<rparr> d)
           [] rows"

definition parse_timeslots :: "timeslot_row list \<Rightarrow> timeslot list" where
  "parse_timeslots rows =
     map (\<lambda>r. \<lparr>ts_id = TimeSlotID r, ts_day = Day r, ts_start = StartTime r, ts_end = EndTime r\<rparr>)
         rows"

text \<open>The object after \<^verbatim>\<open>_parse_data\<close>: no variable, no domain yet.\<close>

definition parse_data :: "data \<Rightarrow> csp" where
  "parse_data d =
     \<lparr>instructor_courses = parse_instructors (instructors_df d),
      section_courses = parse_sections (sections_df d),
      courses = parse_courses (courses_df d),
      rooms = parse_rooms (rooms_df d),
      timeslots = parse_timeslots (timeslots_df d),
      variables = [],
      domains = [],
      variable_info = []\<rparr>"

subsection \<open>\<^verbatim>\<open>_create_variables\<close>\<close>

text \<open>
  The inner loop over one section's course ids. The guard \<^verbatim>\<open>if course_id in self.courses\<close>
  and the two reads of \<^verbatim>\<open>self.courses[course_id]\<close> are one lookup: an absent id is skipped.
\<close>

fun add_section_variables :: "string \<Rightarrow> section_info \<Rightarrow> string list \<Rightarrow> csp \<Rightarrow> csp" where
  "add_section_variables sid sdata [] c = c"
| "add_section_variables sid sdata (cid # cids) c =
     (case map_of (courses c) cid of
        None \<Rightarrow> add_section_variables sid sdata cids c
      | Some crs \<Rightarrow>
          (let var_name = sid @ ''_'' @ cid in
           add_section_variables sid sdata cids
             (c\<lparr>variables := variables c @ [var_name],
                variable_info :=
                  AList.update var_name
                    \<lparr>section_id = sid,
                     course_id = cid,
                     student_count = s_student_count sdata,
                     course_type = c_type crs,
                     course_name = c_name crs\<rparr>
                    (variable_info c)\<rparr>)))"

fun add_variables :: "(string \<times> section_info) list \<Rightarrow> csp \<Rightarrow> csp" where
  "add_variables [] c = c"
| "add_variables ((sid, sdata) # rest) c =
     add_variables rest (add_section_variables sid sdata (s_courses sdata) c)"

definition create_variables :: "csp \<Rightarrow> csp" where
  "create_variables c = add_variables (section_courses c) c"

subsection \<open>\<^verbatim>\<open>_room_matches_course\<close> and \<^verbatim>\<open>_create_domains\<close>\<close>

definition room_matches_course :: "string \<Rightarrow> string \<Rightarrow> bool" where
  "room_matches_course room_type crs_type =
     (let room_lower = lower room_type; course_lower = lower crs_type in
      if str_in ''lecture'' course_lower \<and> str_in ''lecture'' room_lower then True
      else if str_in ''lab'' course_lower \<and> str_in ''lab'' room_lower then True
      else if str_in ''lecture'' course_lower \<and> str_in ''lab'' course_lower then True
      else False)"

text \<open>The first loop over the rooms: type and capacity.\<close>

definition rooms_type_and_capacity :: "csp \<Rightarrow> string \<Rightarrow> int \<Rightarrow> string list" where
  "rooms_type_and_capacity c crs_type students =
     map fst (filter (\<lambda>(room_id, room_data).
                        room_matches_course (r_type room_data) crs_type
                        \<and> r_capacity room_data \<ge> students) (rooms c))"

text \<open>The second loop: type only.\<close>

definition rooms_type_only :: "csp \<Rightarrow> string \<Rightarrow> string list" where
  "rooms_type_only c crs_type =
     map fst (filter (\<lambda>(room_id, room_data).
                        room_matches_course (r_type room_data) crs_type) (rooms c))"

text \<open>The list \<^verbatim>\<open>suitable_rooms\<close> after the two relaxations.\<close>

definition suitable_rooms :: "csp \<Rightarrow> string \<Rightarrow> int \<Rightarrow> string list" where
  "suitable_rooms c crs_type students =
     (let s1 = rooms_type_and_capacity c crs_type students;
          s2 = (if s1 = [] then rooms_type_only c crs_type else s1)
      in if s2 = [] then take 10 (map fst (rooms c)) else s2)"

definition qualified_instructors :: "csp \<Rightarrow> string \<Rightarrow> string list" where
  "qualified_instructors c cid =
     (let q = map fst (filter (\<lambda>(iid, idata). cid \<in> set (i_courses idata))
                              (instructor_courses c))
      in if q = [] then [''UNASSIGNED''] else q)"

definition make_value :: "csp \<Rightarrow> string \<Rightarrow> timeslot \<Rightarrow> string \<Rightarrow> domain_value" where
  "make_value c room_id slot iid =
     \<lparr>room = room_id,
      timeslot_id = ts_id slot,
      day = ts_day slot,
      start_time = ts_start slot,
      end_time = ts_end slot,
      instructor_id = iid,
      instructor_name =
        (case map_of (instructor_courses c) iid of
           None \<Rightarrow> ''Unassigned''
         | Some idata \<Rightarrow> i_name idata)\<rparr>"

text \<open>The body of the loop over the variables: the domain of one variable.\<close>

definition build_domain :: "csp \<Rightarrow> var_info \<Rightarrow> domain_value list" where
  "build_domain c info =
     concat (map (\<lambda>room_id.
       concat (map (\<lambda>slot.
         map (\<lambda>iid. make_value c room_id slot iid)
             (qualified_instructors c (course_id info)))
         (timeslots c)))
       (suitable_rooms c (course_type info) (student_count info)))"

fun add_domains :: "string list \<Rightarrow> csp \<Rightarrow> error + csp" where
  "add_domains [] c = Inr c"
| "add_domains (var_name # rest) c =
     (case map_of (variable_info c) var_name of
        None \<Rightarrow> Inl KeyError
      | Some info \<Rightarrow>
          add_domains rest
            (c\<lparr>domains := AList.update var_name (build_domain c info) (domains c)\<rparr>))"

definition create_domains :: "csp \<Rightarrow> error + csp" where
  "create_domains c = add_domains (variables c) c"

text \<open>The constructor \<^verbatim>\<open>__init__\<close>.\<close>

definition TimetableCSP :: "data \<Rightarrow> error + csp" where
  "TimetableCSP d = create_domains (create_variables (parse_data d))"

subsection \<open>\<^verbatim>\<open>is_consistent\<close>\<close>

text \<open>
  The loop over \<^verbatim>\<open>self.assignment.items()\<close>. Each round reads the section of the assigned
  variable first, then tests the three constraints in the source's order.
\<close>

fun is_consistent_loop :: "csp \<Rightarrow> domain_value \<Rightarrow> string \<Rightarrow> assignment \<Rightarrow> error + bool" where
  "is_consistent_loop c val sid [] = Inr True"
| "is_consistent_loop c val sid ((assigned_var, assigned_value) # rest) =
     (case map_of (variable_info c) assigned_var of
        None \<Rightarrow> Inl KeyError
      | Some assigned_info \<Rightarrow>
          if room val = room assigned_value
             \<and> timeslot_id val = timeslot_id assigned_value then Inr False
          else if instructor_id val = instructor_id assigned_value
             \<and> timeslot_id val = timeslot_id assigned_value
             \<and> instructor_id val \<noteq> ''UNASSIGNED'' then Inr False
          else if sid = section_id assigned_info
             \<and> timeslot_id val = timeslot_id assigned_value then Inr False
          else is_consistent_loop c val sid rest)"

definition is_consistent :: "csp \<Rightarrow> assignment \<Rightarrow> string \<Rightarrow> domain_value \<Rightarrow> error + bool" where
  "is_consistent c asg var val =
     (case map_of (variable_info c) var of
        None \<Rightarrow> Inl KeyError
      | Some info \<Rightarrow> is_consistent_loop c val (section_id info) asg)"

subsection \<open>\<^verbatim>\<open>select_unassigned_variable\<close>\<close>

text \<open>
  \<^verbatim>\<open>list.sort(key=...)\<close> computes the key of every element first (a variable without a
  domain raises) and is stable, as \<open>sort_key\<close> is. The result is \<open>None\<close> when nothing is
  left to assign.
\<close>

definition domain_size :: "csp \<Rightarrow> string \<Rightarrow> nat" where
  "domain_size c v = (case map_of (domains c) v of None \<Rightarrow> 0 | Some d \<Rightarrow> length d)"

definition select_unassigned_variable :: "csp \<Rightarrow> assignment \<Rightarrow> error + string option" where
  "select_unassigned_variable c asg =
     (let unassigned = filter (\<lambda>v. map_of asg v = None) (variables c) in
      if unassigned = [] then Inr None
      else if \<exists>v \<in> set unassigned. map_of (domains c) v = None then Inl KeyError
      else (case sort_key (domain_size c) unassigned of
              [] \<Rightarrow> Inl IndexError
            | v # _ \<Rightarrow> Inr (Some v)))"

subsection \<open>\<^verbatim>\<open>backtracking_search\<close>\<close>

text \<open>
  The state the closure \<^verbatim>\<open>backtrack\<close> works on: \<^verbatim>\<open>self.assignment\<close> and the counter
  \<^verbatim>\<open>iterations[0]\<close>. The field \<open>trail\<close> is not in the source: it records every value
  that \<^verbatim>\<open>self.assignment\<close> takes, newest first, so that a property of all the states the
  search goes through can be stated. Nothing reads it.
\<close>

record search_state =
  assignment :: assignment
  iterations :: nat
  trail :: "assignment list"

definition set_assignment :: "assignment \<Rightarrow> search_state \<Rightarrow> search_state" where
  "set_assignment a st = st\<lparr>assignment := a, trail := a # trail st\<rparr>"

datatype outcome = Returned bool | Raised error

text \<open>
  \<^verbatim>\<open>backtrack\<close> calls itself from inside its loop over the domain, so the closure is the
  function \<open>backtrack\<close> and its loop the function \<open>try_values\<close>. The progress report
  of every hundredth call is left out; the division by the number of variables in it is
  never reached by an object without variables, whose first call returns.

  The first number is \<^verbatim>\<open>max_iterations\<close>. The second bounds the depth of the calls:
  \<open>None\<close> means that the bound was too small, and \<open>backtracking_search\<close> below starts
  with a bound that is never too small (lemma \<open>backtracking_search_returns\<close>). The
  recursion is followed to any depth, one level for each assigned variable. The
  interpreter does not: it stops a run with \<^verbatim>\<open>RecursionError\<close> when the calls nest deeper
  than its recursion limit (1000 frames unless set otherwise), which takes about a
  thousand variables assigned at once. Such a run goes through a beginning of the states
  of the run described here and leaves the assignment of the moment it stops.
\<close>

fun backtrack :: "csp \<Rightarrow> int \<Rightarrow> nat \<Rightarrow> search_state \<Rightarrow> (outcome \<times> search_state) option"
  and try_values ::
    "csp \<Rightarrow> int \<Rightarrow> nat \<Rightarrow> string \<Rightarrow> domain_value list \<Rightarrow> search_state
       \<Rightarrow> (outcome \<times> search_state) option"
where
  "backtrack c max_iterations 0 st = None"
| "backtrack c max_iterations (Suc depth) st =
     (let st1 = st\<lparr>iterations := iterations st + 1\<rparr> in
      if int (iterations st1) \<ge> max_iterations then Some (Returned False, st1)
      else if length (assignment st1) = length (variables c) then Some (Returned True, st1)
      else (case select_unassigned_variable c (assignment st1) of
              Inl e \<Rightarrow> Some (Raised e, st1)
            | Inr None \<Rightarrow> Some (Returned False, st1)
            | Inr (Some var) \<Rightarrow>
                (case map_of (domains c) var of
                   None \<Rightarrow> Some (Raised KeyError, st1)
                 | Some values \<Rightarrow> try_values c max_iterations depth var values st1)))"
| "try_values c max_iterations depth var [] st = Some (Returned False, st)"
| "try_values c max_iterations depth var (val # rest) st =
     (case is_consistent c (assignment st) var val of
        Inl e \<Rightarrow> Some (Raised e, st)
      | Inr False \<Rightarrow> try_values c max_iterations depth var rest st
      | Inr True \<Rightarrow>
          (case backtrack c max_iterations depth
                  (set_assignment (AList.update var val (assignment st)) st) of
             None \<Rightarrow> None
           | Some (Raised e, st2) \<Rightarrow> Some (Raised e, st2)
           | Some (Returned True, st2) \<Rightarrow> Some (Returned True, st2)
           | Some (Returned False, st2) \<Rightarrow>
               if map_of (assignment st2) var = None then Some (Raised KeyError, st2)
               else try_values c max_iterations depth var rest
                      (set_assignment (AList.delete var (assignment st2)) st2)))"

definition initial_state :: search_state where
  "initial_state = \<lparr>assignment = [], iterations = 0, trail = [[]]\<rparr>"

text \<open>
  The method returns \<^verbatim>\<open>success\<close>; the assignment and the counter it leaves behind are
  returned with it.
\<close>

definition backtracking_search :: "csp \<Rightarrow> int \<Rightarrow> (outcome \<times> search_state) option" where
  "backtracking_search c max_iterations =
     backtrack c max_iterations (Suc (length (variables c))) initial_state"

subsection \<open>\<^verbatim>\<open>generate_schedule_dataframe\<close>\<close>

record schedule_row =
  Section_ID :: string
  Course_Code :: string
  Course_Name :: string
  Activity_Type :: string
  Day_col :: string
  Start_Time :: string
  End_Time :: string
  Room_col :: string
  Instructor_col :: string
  Student_Count :: int

text \<open>The record appended to \<^verbatim>\<open>schedule_data\<close> for one item of the assignment.\<close>

definition schedule_row_of :: "var_info \<Rightarrow> domain_value \<Rightarrow> schedule_row" where
  "schedule_row_of info val =
     \<lparr>Section_ID = section_id info,
      Course_Code = course_id info,
      Course_Name = course_name info,
      Activity_Type = course_type info,
      Day_col = day val,
      Start_Time = start_time val,
      End_Time = end_time val,
      Room_col = room val,
      Instructor_col = instructor_name val,
      Student_Count = student_count info\<rparr>"

text \<open>The loop that fills \<^verbatim>\<open>schedule_data\<close>, one row for each item of the assignment.\<close>

fun schedule_rows :: "csp \<Rightarrow> assignment \<Rightarrow> error + schedule_row list" where
  "schedule_rows c [] = Inr []"
| "schedule_rows c ((var_name, val) # rest) =
     (case map_of (variable_info c) var_name of
        None \<Rightarrow> Inl KeyError
      | Some info \<Rightarrow>
          (case schedule_rows c rest of
             Inl e \<Rightarrow> Inl e
           | Inr rows \<Rightarrow> Inr (schedule_row_of info val # rows)))"

text \<open>
  The dictionary \<^verbatim>\<open>day_order\<close>. A day that is not in it gets no rank, and
  \<^verbatim>\<open>sort_values\<close> puts the rows without a rank last: they sort as rank 5.
\<close>

definition day_order :: "string \<Rightarrow> nat option" where
  "day_order d =
     (if d = ''Sunday'' then Some 0
      else if d = ''Monday'' then Some 1
      else if d = ''Tuesday'' then Some 2
      else if d = ''Wednesday'' then Some 3
      else if d = ''Thursday'' then Some 4
      else None)"

definition sort_rank :: "schedule_row \<Rightarrow> nat \<times> string \<times> string" where
  "sort_rank r =
     ((case day_order (Day_col r) of None \<Rightarrow> 5 | Some k \<Rightarrow> k), Start_Time r, Section_ID r)"

text \<open>The result is \<open>None\<close> for Python's \<^verbatim>\<open>None\<close>, and the rows of the data frame otherwise.\<close>

definition generate_schedule_dataframe :: "csp \<Rightarrow> assignment \<Rightarrow> error + schedule_row list option"
  where
  "generate_schedule_dataframe c asg =
     (if asg = [] then Inr None
      else (case schedule_rows c asg of
              Inl e \<Rightarrow> Inl e
            | Inr schedule_data \<Rightarrow> Inr (Some (sort_key sort_rank schedule_data))))"

text \<open>
  The first statements of \<^verbatim>\<open>main\<close>: build the object, then search. The budget, fixed to
  1000 there, is a parameter here.
\<close>

definition solve :: "data \<Rightarrow> int \<Rightarrow> error + (outcome \<times> search_state) option" where
  "solve d max_iterations =
     (case TimetableCSP d of
        Inl e \<Rightarrow> Inl e
      | Inr c \<Rightarrow> Inr (backtracking_search c max_iterations))"

section \<open>Properties\<close>

subsection \<open>The no-clash invariants of an assignment\<close>

text \<open>Every assigned variable is one the object knows.\<close>

definition assigned_known :: "csp \<Rightarrow> assignment \<Rightarrow> bool" where
  "assigned_known c asg = (\<forall>(v, x) \<in> set asg. map_of (variable_info c) v \<noteq> None)"

definition no_room_clash :: "assignment \<Rightarrow> bool" where
  "no_room_clash asg =
     (\<forall>(v, x) \<in> set asg. \<forall>(w, y) \<in> set asg.
        v \<noteq> w \<longrightarrow> \<not> (room x = room y \<and> timeslot_id x = timeslot_id y))"

definition no_instructor_clash :: "assignment \<Rightarrow> bool" where
  "no_instructor_clash asg =
     (\<forall>(v, x) \<in> set asg. \<forall>(w, y) \<in> set asg.
        v \<noteq> w \<longrightarrow> instructor_id x \<noteq> ''UNASSIGNED'' \<longrightarrow>
        \<not> (instructor_id x = instructor_id y \<and> timeslot_id x = timeslot_id y))"

definition same_section :: "csp \<Rightarrow> string \<Rightarrow> string \<Rightarrow> bool" where
  "same_section c v w =
     (case (map_of (variable_info c) v, map_of (variable_info c) w) of
        (Some a, Some b) \<Rightarrow> section_id a = section_id b
      | _ \<Rightarrow> False)"

definition no_section_clash :: "csp \<Rightarrow> assignment \<Rightarrow> bool" where
  "no_section_clash c asg =
     (\<forall>(v, x) \<in> set asg. \<forall>(w, y) \<in> set asg.
        v \<noteq> w \<longrightarrow> same_section c v w \<longrightarrow> timeslot_id x \<noteq> timeslot_id y)"

text \<open>
  The assignment is a dictionary (no variable twice), over known variables, and free of
  the three clashes.
\<close>

definition clash_free :: "csp \<Rightarrow> assignment \<Rightarrow> bool" where
  "clash_free c asg =
     (distinct (map fst asg) \<and> assigned_known c asg
      \<and> no_room_clash asg \<and> no_instructor_clash asg \<and> no_section_clash c asg)"

subsection \<open>Premises of the claims on the constructor\<close>

text \<open>Some section lists a course id that is not in the course catalog.\<close>

definition references_absent_course :: "data \<Rightarrow> bool" where
  "references_absent_course d =
     (\<exists>s \<in> set (sections_df d). \<exists>cid \<in> set (parse_id_list (Courses s)).
        cid \<notin> CourseID ` set (courses_df d))"

subsection \<open>Room types\<close>

text \<open>
  A lecture type and a lab type are what \<^verbatim>\<open>_room_matches_course\<close> looks for: the word
  in the lowered type string.
\<close>

definition lecture_type :: "string \<Rightarrow> bool" where
  "lecture_type t = str_in ''lecture'' (lower t)"

definition lab_type :: "string \<Rightarrow> bool" where
  "lab_type t = str_in ''lab'' (lower t)"

text \<open>
  The compatibility of C7, in the words of the claim: a lecture-type room for a
  lecture-type course, a lab-type room for a lab-type course, either of those two room
  types for a combined lecture-and-lab course.
\<close>

definition type_compatible_as_claimed :: "string \<Rightarrow> string \<Rightarrow> bool" where
  "type_compatible_as_claimed room_type crs_type =
     ((lecture_type crs_type \<and> lecture_type room_type)
      \<or> (lab_type crs_type \<and> lab_type room_type)
      \<or> (lecture_type crs_type \<and> lab_type crs_type
          \<and> (lecture_type room_type \<or> lab_type room_type)))"

subsection \<open>Catalogs that differ only in the instructors' preferences\<close>

text \<open>
  Two catalogs differ at most in the column \<^verbatim>\<open>PreferredSlots\<close> when they are equal once
  that column is blanked; two objects are equal up to the stored preference when they are
  equal once the entry \<^verbatim>\<open>'preferences'\<close> of every instructor is blanked.
\<close>

definition forget_preferences :: "data \<Rightarrow> data" where
  "forget_preferences d =
     d\<lparr>instructors_df := map (\<lambda>r. r\<lparr>PreferredSlots := []\<rparr>) (instructors_df d)\<rparr>"

definition without_preferences :: "csp \<Rightarrow> csp" where
  "without_preferences c =
     c\<lparr>instructor_courses :=
         map (\<lambda>(iid, idata). (iid, idata\<lparr>i_preferences := []\<rparr>)) (instructor_courses c)\<rparr>"

section \<open>Example catalogs\<close>

text \<open>
  One section with two lecture courses, one room, one time slot, one instructor for each
  course: the two variables cannot both be placed.
\<close>

definition scenario_A :: data where
  "scenario_A =
     \<lparr>courses_df =
        [\<lparr>CourseID = ''C1'', CourseName = ''Algebra'', CourseType = ''Lecture'', Credits = 3\<rparr>,
         \<lparr>CourseID = ''C2'', CourseName = ''Logic'', CourseType = ''Lecture'', Credits = 3\<rparr>],
      instructors_df =
        [\<lparr>InstructorID = ''I1'', Name = ''Ann'', QualifiedCourses = ''C1'',
          PreferredSlots = ''T1''\<rparr>,
         \<lparr>InstructorID = ''I2'', Name = ''Bob'', QualifiedCourses = ''C2'',
          PreferredSlots = ''T1''\<rparr>],
      rooms_df = [\<lparr>RoomID = ''R1'', RoomType = ''Lecture'', Capacity = 40\<rparr>],
      timeslots_df =
        [\<lparr>TimeSlotID = ''T1'', Day = ''Sunday'', StartTime = ''09:00'', EndTime = ''10:30''\<rparr>],
      sections_df = [\<lparr>SectionID = ''S1'', StudentCount = 30, Courses = ''C1,C2''\<rparr>]\<rparr>"

text \<open>
  Two sections with one course each, two rooms, one time slot, one instructor for each
  course: both variables are placed, in different rooms.
\<close>

definition scenario_B :: data where
  "scenario_B =
     \<lparr>courses_df =
        [\<lparr>CourseID = ''C1'', CourseName = ''Algebra'', CourseType = ''Lecture'', Credits = 3\<rparr>,
         \<lparr>CourseID = ''C2'', CourseName = ''Logic'', CourseType = ''Lecture'', Credits = 3\<rparr>],
      instructors_df =
        [\<lparr>InstructorID = ''I1'', Name = ''Ann'', QualifiedCourses = ''C1'',
          PreferredSlots = ''T1''\<rparr>,
         \<lparr>InstructorID = ''I2'', Name = ''Bob'', QualifiedCourses = ''C2'',
          PreferredSlots = ''T1''\<rparr>],
      rooms_df =
        [\<lparr>RoomID = ''R1'', RoomType = ''Lecture'', Capacity = 40\<rparr>,
         \<lparr>RoomID = ''R2'', RoomType = ''Lecture'', Capacity = 40\<rparr>],
      timeslots_df =
        [\<lparr>TimeSlotID = ''T1'', Day = ''Sunday'', StartTime = ''09:00'', EndTime = ''10:30''\<rparr>],
      sections_df =
        [\<lparr>SectionID = ''S1'', StudentCount = 30, Courses = ''C1''\<rparr>,
         \<lparr>SectionID = ''S2'', StudentCount = 25, Courses = ''C2''\<rparr>]\<rparr>"

text \<open>
  One variable with two candidates (one room, two time slots, no qualified instructor):
  used with a budget of 2.
\<close>

definition scenario_budget :: data where
  "scenario_budget =
     \<lparr>courses_df =
        [\<lparr>CourseID = ''C1'', CourseName = ''Algebra'', CourseType = ''Lecture'', Credits = 3\<rparr>],
      instructors_df = [],
      rooms_df = [\<lparr>RoomID = ''R1'', RoomType = ''Lecture'', Capacity = 40\<rparr>],
      timeslots_df =
        [\<lparr>TimeSlotID = ''T1'', Day = ''Sunday'', StartTime = ''09:00'', EndTime = ''10:30''\<rparr>,
         \<lparr>TimeSlotID = ''T2'', Day = ''Sunday'', StartTime = ''10:45'', EndTime = ''12:15''\<rparr>],
      sections_df = [\<lparr>SectionID = ''S1'', StudentCount = 30, Courses = ''C1''\<rparr>]\<rparr>"

text \<open>The section lists \<^verbatim>\<open>C9\<close>, which is not a course.\<close>

definition scenario_dangling :: data where
  "scenario_dangling =
     \<lparr>courses_df =
        [\<lparr>CourseID = ''C1'', CourseName = ''Algebra'', CourseType = ''Lecture'', Credits = 3\<rparr>],
      instructors_df =
        [\<lparr>InstructorID = ''I1'', Name = ''Ann'', QualifiedCourses = ''C1,C7'',
          PreferredSlots = ''T1''\<rparr>],
      rooms_df = [\<lparr>RoomID = ''R1'', RoomType = ''Lecture'', Capacity = 40\<rparr>],
      timeslots_df =
        [\<lparr>TimeSlotID = ''T1'', Day = ''Sunday'', StartTime = ''09:00'', EndTime = ''10:30''\<rparr>],
      sections_df = [\<lparr>SectionID = ''S1'', StudentCount = 30, Courses = ''C1, C9''\<rparr>]\<rparr>"

text \<open>A catalog without any room.\<close>

definition scenario_no_rooms :: data where
  "scenario_no_rooms =
     \<lparr>courses_df =
        [\<lparr>CourseID = ''C1'', CourseName = ''Algebra'', CourseType = ''Lecture'', Credits = 3\<rparr>],
      instructors_df =
        [\<lparr>InstructorID = ''I1'', Name = ''Ann'', QualifiedCourses = ''C1'',
          PreferredSlots = ''T1''\<rparr>],
      rooms_df = [],
      timeslots_df =
        [\<lparr>TimeSlotID = ''T1'', Day = ''Sunday'', StartTime = ''09:00'', EndTime = ''10:30''\<rparr>],
      sections_df = [\<lparr>SectionID = ''S1'', StudentCount = 30, Courses = ''C1''\<rparr>]\<rparr>"

text \<open>A combined course and a room that is neither a lecture room nor a lab.\<close>

definition scenario_seminar :: data where
  "scenario_seminar =
     \<lparr>courses_df =
        [\<lparr>CourseID = ''C1'', CourseName = ''Physics'', CourseType = ''Lecture and Lab'',
          Credits = 4\<rparr>],
      instructors_df = [],
      rooms_df = [\<lparr>RoomID = ''R1'', RoomType = ''Seminar'', Capacity = 40\<rparr>],
      timeslots_df =
        [\<lparr>TimeSlotID = ''T1'', Day = ''Sunday'', StartTime = ''09:00'', EndTime = ''10:30''\<rparr>],
      sections_df = [\<lparr>SectionID = ''S1'', StudentCount = 30, Courses = ''C1''\<rparr>]\<rparr>"

text \<open>A lab course and eleven rooms, none of them a lab.\<close>

definition scenario_fallback :: data where
  "scenario_fallback =
     \<lparr>courses_df =
        [\<lparr>CourseID = ''C1'', CourseName = ''Circuits'', CourseType = ''Lab'', Credits = 1\<rparr>],
      instructors_df = [],
      rooms_df =
        [\<lparr>RoomID = ''R01'', RoomType = ''Lecture'', Capacity = 40\<rparr>,
         \<lparr>RoomID = ''R02'', RoomType = ''Lecture'', Capacity = 40\<rparr>,
         \<lparr>RoomID = ''R03'', RoomType = ''Lecture'', Capacity = 40\<rparr>,
         \<lparr>RoomID = ''R04'', RoomType = ''Lecture'', Capacity = 40\<rparr>,
         \<lparr>RoomID = ''R05'', RoomType = ''Lecture'', Capacity = 40\<rparr>,
         \<lparr>RoomID = ''R06'', RoomType = ''Lecture'', Capacity = 40\<rparr>,
         \<lparr>RoomID = ''R07'', RoomType = ''Lecture'', Capacity = 40\<rparr>,
         \<lparr>RoomID = ''R08'', RoomType = ''Lecture'', Capacity = 40\<rparr>,
         \<lparr>RoomID = ''R09'', RoomType = ''Lecture'', Capacity = 40\<rparr>,
         \<lparr>RoomID = ''R10'', RoomType = ''Lecture'', Capacity = 40\<rparr>,
         \<lparr>RoomID = ''R11'', RoomType = ''Lecture'', Capacity = 40\<rparr>],
      timeslots_df =
        [\<lparr>TimeSlotID = ''T1'', Day = ''Sunday'', StartTime = ''09:00'', EndTime = ''10:30''\<rparr>],
      sections_df = [\<lparr>SectionID = ''S1'', StudentCount = 30, Courses = ''C1''\<rparr>]\<rparr>"

text \<open>
  Two variables: \<^verbatim>\<open>S1_C1\<close> comes first and has two candidates (two instructors),
  \<^verbatim>\<open>S2_C2\<close> comes second and has one.
\<close>

definition scenario_mrv :: data where
  "scenario_mrv =
     \<lparr>courses_df =
        [\<lparr>CourseID = ''C1'', CourseName = ''Algebra'', CourseType = ''Lecture'', Credits = 3\<rparr>,
         \<lparr>CourseID = ''C2'', CourseName = ''Logic'', CourseType = ''Lecture'', Credits = 3\<rparr>],
      instructors_df =
        [\<lparr>InstructorID = ''I1'', Name = ''Ann'', QualifiedCourses = ''C1'',
          PreferredSlots = ''T1''\<rparr>,
         \<lparr>InstructorID = ''I2'', Name = ''Bob'', QualifiedCourses = ''C1, C2'',
          PreferredSlots = ''T1''\<rparr>],
      rooms_df = [\<lparr>RoomID = ''R1'', RoomType = ''Lecture'', Capacity = 40\<rparr>],
      timeslots_df =
        [\<lparr>TimeSlotID = ''T1'', Day = ''Sunday'', StartTime = ''09:00'', EndTime = ''10:30''\<rparr>],
      sections_df =
        [\<lparr>SectionID = ''S1'', StudentCount = 30, Courses = ''C1''\<rparr>,
         \<lparr>SectionID = ''S2'', StudentCount = 25, Courses = ''C2''\<rparr>]\<rparr>"

text \<open>Scenario B with other preferences.\<close>

definition scenario_B_other_preferences :: data where
  "scenario_B_other_preferences =
     scenario_B\<lparr>instructors_df :=
        [\<lparr>InstructorID = ''I1'', Name = ''Ann'', QualifiedCourses = ''C1'',
          PreferredSlots = ''T7, T9''\<rparr>,
         \<lparr>InstructorID = ''I2'', Name = ''Bob'', QualifiedCourses = ''C2'',
          PreferredSlots = ''''\<rparr>]\<rparr>"

section \<open>Lemmas on the dictionaries and the constructor\<close>

lemma foldl_update_nonempty:
  "(foldl (\<lambda>d r. AList.update (k r) (f r) d) acc rows = []) = (acc = [] \<and> rows = [])"
  by (induction rows arbitrary: acc) auto

lemma rooms_parse_data: "(rooms (parse_data d) = []) = (rooms_df d = [])"
  by (simp add: parse_data_def parse_rooms_def foldl_update_nonempty)

lemma timeslots_parse_data: "(timeslots (parse_data d) = []) = (timeslots_df d = [])"
  by (simp add: parse_data_def parse_timeslots_def)

lemma add_section_variables_frame:
  "instructor_courses (add_section_variables sid sd cids c) = instructor_courses c
   \<and> section_courses (add_section_variables sid sd cids c) = section_courses c
   \<and> courses (add_section_variables sid sd cids c) = courses c
   \<and> rooms (add_section_variables sid sd cids c) = rooms c
   \<and> timeslots (add_section_variables sid sd cids c) = timeslots c
   \<and> domains (add_section_variables sid sd cids c) = domains c"
  by (induction cids arbitrary: c) (auto simp: Let_def split: option.splits)

lemma add_section_variables_variables:
  "variables (add_section_variables sid sd cids c) =
     variables c @ map (\<lambda>cid. sid @ ''_'' @ cid)
                       (filter (\<lambda>cid. map_of (courses c) cid \<noteq> None) cids)"
proof (induction cids arbitrary: c)
  case Nil
  show ?case by simp
next
  case (Cons cid cids)
  show ?case
  proof (cases "map_of (courses c) cid")
    case None
    then show ?thesis using Cons.IH [of c] by simp
  next
    case (Some crs)
    then show ?thesis by (simp add: Let_def Cons.IH)
  qed
qed

lemma add_section_variables_info:
  "set (variables c) \<subseteq> dom (map_of (variable_info c)) \<Longrightarrow>
   set (variables (add_section_variables sid sd cids c))
     \<subseteq> dom (map_of (variable_info (add_section_variables sid sd cids c)))"
proof (induction cids arbitrary: c)
  case Nil
  then show ?case by simp
next
  case (Cons cid cids)
  show ?case
  proof (cases "map_of (courses c) cid")
    case None
    then show ?thesis using Cons.IH [OF Cons.prems] by simp
  next
    case (Some crs)
    show ?thesis
      using Some Cons.prems
      by (simp add: Let_def) (rule Cons.IH, auto simp: update_conv')
  qed
qed

lemma add_variables_frame:
  "instructor_courses (add_variables secs c) = instructor_courses c
   \<and> section_courses (add_variables secs c) = section_courses c
   \<and> courses (add_variables secs c) = courses c
   \<and> rooms (add_variables secs c) = rooms c
   \<and> timeslots (add_variables secs c) = timeslots c
   \<and> domains (add_variables secs c) = domains c"
  by (induction secs c rule: add_variables.induct) (simp_all add: add_section_variables_frame)

lemma add_variables_variables:
  "variables (add_variables secs c) =
     variables c @ concat (map (\<lambda>(sid, sd). map (\<lambda>cid. sid @ ''_'' @ cid)
                       (filter (\<lambda>cid. map_of (courses c) cid \<noteq> None) (s_courses sd))) secs)"
  by (induction secs c rule: add_variables.induct)
     (simp_all add: add_section_variables_variables add_section_variables_frame)

lemma add_variables_info:
  "set (variables c) \<subseteq> dom (map_of (variable_info c)) \<Longrightarrow>
   set (variables (add_variables secs c)) \<subseteq> dom (map_of (variable_info (add_variables secs c)))"
  by (induction secs c rule: add_variables.induct) (simp_all add: add_section_variables_info)

lemma build_domain_domains_update:
  "build_domain (c\<lparr>domains := ds\<rparr>) = build_domain c"
  by (simp add: fun_eq_iff build_domain_def suitable_rooms_def rooms_type_and_capacity_def
      rooms_type_only_def qualified_instructors_def make_value_def)

lemma add_domains_result:
  "set vs \<subseteq> dom (map_of (variable_info c)) \<Longrightarrow>
   \<exists>ds. add_domains vs c = Inr (c\<lparr>domains := ds\<rparr>)
      \<and> (\<forall>v. map_of ds v =
            (if v \<in> set vs then map_option (build_domain c) (map_of (variable_info c) v)
             else map_of (domains c) v))"
proof (induction vs arbitrary: c)
  case Nil
  have "c = c\<lparr>domains := domains c\<rparr>" by simp
  then show ?case by (metis add_domains.simps(1) empty_iff list.set(1))
next
  case (Cons v vs)
  from Cons.prems obtain info where info: "map_of (variable_info c) v = Some info" by auto
  let ?c1 = "c\<lparr>domains := AList.update v (build_domain c info) (domains c)\<rparr>"
  have "set vs \<subseteq> dom (map_of (variable_info ?c1))" using Cons.prems by simp
  from Cons.IH [OF this] obtain ds where
    ds: "add_domains vs ?c1 = Inr (?c1\<lparr>domains := ds\<rparr>)"
    and look: "\<forall>w. map_of ds w =
            (if w \<in> set vs then map_option (build_domain ?c1) (map_of (variable_info ?c1) w)
             else map_of (domains ?c1) w)" by blast
  have "add_domains (v # vs) c = Inr (c\<lparr>domains := ds\<rparr>)" using info ds by simp
  moreover have "\<forall>w. map_of ds w =
            (if w \<in> set (v # vs) then map_option (build_domain c) (map_of (variable_info c) w)
             else map_of (domains c) w)"
    using look info by (auto simp: build_domain_domains_update update_conv' fun_eq_iff)
  ultimately show ?case by blast
qed

lemma constructor_returns:
  "\<exists>ds. TimetableCSP d = Inr ((create_variables (parse_data d))\<lparr>domains := ds\<rparr>)
     \<and> (\<forall>v. map_of ds v =
           (if v \<in> set (variables (create_variables (parse_data d)))
            then map_option (build_domain (create_variables (parse_data d)))
                   (map_of (variable_info (create_variables (parse_data d))) v)
            else None))"
proof -
  let ?c = "create_variables (parse_data d)"
  have "set (variables (parse_data d)) \<subseteq> dom (map_of (variable_info (parse_data d)))"
    by (simp add: parse_data_def)
  then have "set (variables ?c) \<subseteq> dom (map_of (variable_info ?c))"
    unfolding create_variables_def by (rule add_variables_info)
  from add_domains_result [OF this] obtain ds where
    "add_domains (variables ?c) ?c = Inr (?c\<lparr>domains := ds\<rparr>)"
    and "\<forall>v. map_of ds v =
            (if v \<in> set (variables ?c) then map_option (build_domain ?c) (map_of (variable_info ?c) v)
             else map_of (domains ?c) v)" by blast
  moreover have "domains ?c = []"
    by (simp add: create_variables_def add_variables_frame parse_data_def)
  ultimately show ?thesis
    by (auto simp: TimetableCSP_def create_domains_def)
qed

section \<open>Lemmas on the search\<close>

lemma is_consistent_loop_True:
  "is_consistent_loop c val sid asg = Inr True \<Longrightarrow> (w, y) \<in> set asg \<Longrightarrow>
   (\<exists>b. map_of (variable_info c) w = Some b
        \<and> \<not> (sid = section_id b \<and> timeslot_id val = timeslot_id y))
   \<and> \<not> (room val = room y \<and> timeslot_id val = timeslot_id y)
   \<and> \<not> (instructor_id val = instructor_id y \<and> timeslot_id val = timeslot_id y
          \<and> instructor_id val \<noteq> ''UNASSIGNED'')"
proof (induction asg)
  case Nil
  then show ?case by simp
next
  case (Cons p asg)
  obtain av aval where p: "p = (av, aval)" by (cases p)
  from Cons.prems(1) obtain ai where ai: "map_of (variable_info c) av = Some ai"
    by (auto simp: p split: option.splits)
  from Cons.prems(1) have rest: "is_consistent_loop c val sid asg = Inr True"
    and here: "\<not> (room val = room aval \<and> timeslot_id val = timeslot_id aval)"
      "\<not> (instructor_id val = instructor_id aval \<and> timeslot_id val = timeslot_id aval
          \<and> instructor_id val \<noteq> ''UNASSIGNED'')"
      "\<not> (sid = section_id ai \<and> timeslot_id val = timeslot_id aval)"
    by (auto simp: p ai split: if_splits)
  show ?case
  proof (cases "(w, y) = (av, aval)")
    case True
    then show ?thesis using ai here by auto
  next
    case False
    then have "(w, y) \<in> set asg" using Cons.prems(2) p by auto
    from Cons.IH [OF rest this] show ?thesis .
  qed
qed

lemma set_update_distinct:
  "distinct (map fst al) \<Longrightarrow>
   set (AList.update k v al) = insert (k, v) {p \<in> set al. fst p \<noteq> k}"
  by (induction al) (auto simp: rev_image_eqI)

lemma set_delete_filter: "set (AList.delete k al) = {p \<in> set al. fst p \<noteq> k}"
  by (auto simp: AList.delete_eq)


lemma clash_free_delete: "clash_free c asg \<Longrightarrow> clash_free c (AList.delete var asg)"
proof -
  assume inv: "clash_free c asg"
  have sub: "set (AList.delete var asg) \<subseteq> set asg" by (auto simp: set_delete_filter)
  have 1: "distinct (map fst (AList.delete var asg))"
    using inv by (simp add: clash_free_def distinct_delete)
  have 2: "assigned_known c (AList.delete var asg)"
    using inv sub unfolding clash_free_def assigned_known_def by blast
  have 3: "no_room_clash (AList.delete var asg)"
    using inv sub unfolding clash_free_def no_room_clash_def by blast
  have 4: "no_instructor_clash (AList.delete var asg)"
    using inv sub unfolding clash_free_def no_instructor_clash_def by blast
  have 5: "no_section_clash c (AList.delete var asg)"
    using inv sub unfolding clash_free_def no_section_clash_def by blast
  from 1 2 3 4 5 show ?thesis by (simp add: clash_free_def)
qed

lemma pairwiseI:
  assumes old: "\<And>v x w y. (v, x) \<in> A \<Longrightarrow> (w, y) \<in> A \<Longrightarrow> v \<noteq> w \<Longrightarrow> R v x w y"
    and new1: "\<And>w y. (w, y) \<in> A \<Longrightarrow> w \<noteq> k \<Longrightarrow> R k n w y"
    and new2: "\<And>w y. (w, y) \<in> A \<Longrightarrow> w \<noteq> k \<Longrightarrow> R w y k n"
  shows "\<forall>(v, x) \<in> insert (k, n) {p \<in> A. fst p \<noteq> k}.
         \<forall>(w, y) \<in> insert (k, n) {p \<in> A. fst p \<noteq> k}. v \<noteq> w \<longrightarrow> R v x w y"
proof (intro ballI, clarify)
  fix v x w y
  assume a: "(v, x) \<in> insert (k, n) {p \<in> A. fst p \<noteq> k}"
    and b: "(w, y) \<in> insert (k, n) {p \<in> A. fst p \<noteq> k}" and ne: "v \<noteq> w"
  show "R v x w y"
  proof (cases "(v, x) = (k, n)")
    case True
    with b ne have "(w, y) \<in> A" "w \<noteq> k" by auto
    with True new1 show ?thesis by simp
  next
    case False
    with a have va: "(v, x) \<in> A" "v \<noteq> k" by auto
    show ?thesis
    proof (cases "(w, y) = (k, n)")
      case True
      with va new2 show ?thesis by simp
    next
      case False
      with b have "(w, y) \<in> A" by auto
      with va ne old show ?thesis by simp
    qed
  qed
qed

lemma clash_free_update:
  assumes inv: "clash_free c asg" and ok: "is_consistent c asg var val = Inr True"
  shows "clash_free c (AList.update var val asg)"
proof -
  from ok obtain info where info: "map_of (variable_info c) var = Some info"
    and loop: "is_consistent_loop c val (section_id info) asg = Inr True"
    by (auto simp: is_consistent_def split: option.splits)
  note chk = is_consistent_loop_True [OF loop]
  from inv have d: "distinct (map fst asg)" by (simp add: clash_free_def)
  have s: "set (AList.update var val asg) = insert (var, val) {p \<in> set asg. fst p \<noteq> var}"
    by (rule set_update_distinct [OF d])
  have 1: "distinct (map fst (AList.update var val asg))"
    using d by (simp add: distinct_update)
  have 2: "assigned_known c (AList.update var val asg)"
    using inv info by (auto simp: clash_free_def assigned_known_def s)
  have 3: "no_room_clash (AList.update var val asg)"
    unfolding no_room_clash_def s
  proof (rule pairwiseI)
    fix v x w y assume "(v, x) \<in> set asg" "(w, y) \<in> set asg" "v \<noteq> w"
    with inv show "\<not> (room x = room y \<and> timeslot_id x = timeslot_id y)"
      unfolding clash_free_def no_room_clash_def by blast
  next
    fix w y assume "(w, y) \<in> set asg" "w \<noteq> var"
    from chk [OF this(1)] show "\<not> (room val = room y \<and> timeslot_id val = timeslot_id y)"
      by simp
  next
    fix w y assume "(w, y) \<in> set asg" "w \<noteq> var"
    from chk [OF this(1)] show "\<not> (room y = room val \<and> timeslot_id y = timeslot_id val)"
      by auto
  qed
  have 4: "no_instructor_clash (AList.update var val asg)"
    unfolding no_instructor_clash_def s
  proof (rule pairwiseI)
    fix v x w y assume "(v, x) \<in> set asg" "(w, y) \<in> set asg" "v \<noteq> w"
    with inv show "instructor_id x \<noteq> ''UNASSIGNED'' \<longrightarrow>
        \<not> (instructor_id x = instructor_id y \<and> timeslot_id x = timeslot_id y)"
      unfolding clash_free_def no_instructor_clash_def by blast
  next
    fix w y assume "(w, y) \<in> set asg" "w \<noteq> var"
    from chk [OF this(1)] show "instructor_id val \<noteq> ''UNASSIGNED'' \<longrightarrow>
        \<not> (instructor_id val = instructor_id y \<and> timeslot_id val = timeslot_id y)"
      by blast
  next
    fix w y assume "(w, y) \<in> set asg" "w \<noteq> var"
    from chk [OF this(1)] show "instructor_id y \<noteq> ''UNASSIGNED'' \<longrightarrow>
        \<not> (instructor_id y = instructor_id val \<and> timeslot_id y = timeslot_id val)"
      by metis
  qed
  have 5: "no_section_clash c (AList.update var val asg)"
    unfolding no_section_clash_def s
  proof (rule pairwiseI)
    fix v x w y assume "(v, x) \<in> set asg" "(w, y) \<in> set asg" "v \<noteq> w"
    with inv show "same_section c v w \<longrightarrow> timeslot_id x \<noteq> timeslot_id y"
      unfolding clash_free_def no_section_clash_def by blast
  next
    fix w y assume "(w, y) \<in> set asg" "w \<noteq> var"
    from chk [OF this(1)] info show "same_section c var w \<longrightarrow> timeslot_id val \<noteq> timeslot_id y"
      by (auto simp: same_section_def)
  next
    fix w y assume "(w, y) \<in> set asg" "w \<noteq> var"
    from chk [OF this(1)] info show "same_section c w var \<longrightarrow> timeslot_id y \<noteq> timeslot_id val"
      by (auto simp: same_section_def)
  qed
  from 1 2 3 4 5 show ?thesis by (simp add: clash_free_def)
qed

lemma search_preserves:
  assumes inc: "\<And>c st. G c st \<Longrightarrow> G c (st\<lparr>iterations := iterations st + 1\<rparr>)"
    and upd: "\<And>c st var val. G c st \<Longrightarrow> is_consistent c (assignment st) var val = Inr True
                \<Longrightarrow> G c (set_assignment (AList.update var val (assignment st)) st)"
    and del: "\<And>c st var. G c st \<Longrightarrow> G c (set_assignment (AList.delete var (assignment st)) st)"
  shows "backtrack c m n st = Some (out, st') \<Longrightarrow> G c st \<Longrightarrow> G c st'"
    and "try_values c m n var vals st = Some (out, st') \<Longrightarrow> G c st \<Longrightarrow> G c st'"
proof (induction c m n st and c m n var vals st arbitrary: out st' and out st'
    rule: backtrack_try_values.induct)
  case (1 c m st)
  then show ?case by simp
next
  case (2 c m depth st)
  let ?st1 = "st\<lparr>iterations := iterations st + 1\<rparr>"
  have g1: "G c ?st1" using inc "2.prems"(2) .
  show ?case
  proof (cases "\<exists>var vs. \<not> m \<le> int (iterations ?st1)
      \<and> length (assignment ?st1) \<noteq> length (variables c)
      \<and> select_unassigned_variable c (assignment ?st1) = Inr (Some var)
      \<and> map_of (domains c) var = Some vs")
    case True
    then obtain var vs where a: "\<not> m \<le> int (iterations ?st1)"
      and b: "length (assignment ?st1) \<noteq> length (variables c)"
      and s: "select_unassigned_variable c (assignment ?st1) = Inr (Some var)"
      and d: "map_of (domains c) var = Some vs" by blast
    from "2.prems"(1) a b s d have "try_values c m depth var vs ?st1 = Some (out, st')"
      by (simp add: Let_def)
    from "2.IH" [OF refl a b s refl d this g1] show ?thesis .
  next
    case False
    with "2.prems"(1) have "st' = ?st1"
      by (auto simp: Let_def split: if_splits sum.splits option.splits)
    with g1 show ?thesis by simp
  qed
next
  case (3 c m depth var st)
  then show ?case by simp
next
  case (4 c m depth var val rest st)
  show ?case
  proof (cases "is_consistent c (assignment st) var val")
    case (Inl e)
    with "4.prems" show ?thesis by simp
  next
    case (Inr b)
    show ?thesis
    proof (cases b)
      case False
      then have bF: "b = False" by simp
      with Inr "4.prems"(1) have "try_values c m depth var rest st = Some (out, st')" by simp
      from "4.IH"(3) [OF Inr bF this "4.prems"(2)] show ?thesis .
    next
      case True
      let ?st1 = "set_assignment (AList.update var val (assignment st)) st"
      from True have bT: "b = True" by simp
      from Inr True have ok: "is_consistent c (assignment st) var val = Inr True" by simp
      have g1: "G c ?st1" using upd "4.prems"(2) ok .
      from "4.prems"(1) ok obtain o2 st2 where
        r: "backtrack c m depth ?st1 = Some (o2, st2)"
        by (auto split: option.splits)
      from "4.IH"(1) [OF Inr bT r g1] have g2: "G c st2" .
      show ?thesis
      proof (cases "o2 = Returned False \<and> map_of (assignment st2) var \<noteq> None")
        case True
        then have o2: "o2 = Returned False" and nn: "map_of (assignment st2) var \<noteq> None"
          by simp_all
        let ?st3 = "set_assignment (AList.delete var (assignment st2)) st2"
        from "4.prems"(1) ok r o2 nn have
          t: "try_values c m depth var rest ?st3 = Some (out, st')" by simp
        have g3: "G c ?st3" using del g2 .
        from r o2 have r': "backtrack c m depth ?st1 = Some (Returned False, st2)" by simp
        from "4.IH"(2) [OF Inr bT r' refl refl refl nn t g3] show ?thesis .
      next
        case False
        with "4.prems"(1) ok r have "st' = st2"
          by (cases o2) (auto split: if_splits bool.splits)
        with g2 show ?thesis by simp
      qed
    qed
  qed
qed

lemma assignment_set_assignment [simp]: "assignment (set_assignment a st) = a"
  and iterations_set_assignment [simp]: "iterations (set_assignment a st) = iterations st"
  and trail_set_assignment [simp]: "trail (set_assignment a st) = a # trail st"
  by (simp_all add: set_assignment_def)

lemma select_Some:
  assumes "select_unassigned_variable c asg = Inr (Some v)"
  shows "v \<in> set (variables c) \<and> map_of asg v = None"
proof -
  let ?un = "filter (\<lambda>v. map_of asg v = None) (variables c)"
  from assms obtain rest where "sort_key (domain_size c) ?un = v # rest"
    by (auto simp: select_unassigned_variable_def Let_def split: if_splits list.splits)
  then have "v \<in> set (sort_key (domain_size c) ?un)" by simp
  then show ?thesis by simp
qed

lemma delete_update_fresh:
  "map_of asg var = None \<Longrightarrow> AList.delete var (AList.update var val asg) = asg"
  by (simp add: delete_update_same map_of_eq_None_iff)

lemma unassigned_shrinks:
  assumes "var \<in> set (variables c)" "map_of asg var = None"
  shows "card (set (variables c) - fst ` set (AList.update var val asg))
           < card (set (variables c) - fst ` set asg)"
proof -
  have "var \<in> set (variables c) - fst ` set asg"
    using assms by (simp add: map_of_eq_None_iff)
  then have "card ((set (variables c) - fst ` set asg) - {var})
               < card (set (variables c) - fst ` set asg)"
    by (intro card_Diff1_less) simp_all
  moreover have "set (variables c) - fst ` set (AList.update var val asg)
                   = (set (variables c) - fst ` set asg) - {var}"
    by (auto simp: dom_update)
  ultimately show ?thesis by simp
qed

lemma search_returns:
  shows "card (set (variables c) - fst ` set (assignment st)) < n \<Longrightarrow>
         \<exists>out st'. backtrack c m n st = Some (out, st')
            \<and> (out = Returned False \<longrightarrow> assignment st' = assignment st)"
    and "var \<in> set (variables c) \<Longrightarrow> map_of (assignment st) var = None \<Longrightarrow>
         card (set (variables c) - fst ` set (assignment st)) \<le> n \<Longrightarrow>
         \<exists>out st'. try_values c m n var vals st = Some (out, st')
            \<and> (out = Returned False \<longrightarrow> assignment st' = assignment st)"
proof (induction c m n st and c m n var vals st rule: backtrack_try_values.induct)
  case (1 c m st)
  then show ?case by simp
next
  case (2 c m depth st)
  let ?st1 = "st\<lparr>iterations := iterations st + 1\<rparr>"
  show ?case
  proof (cases "\<exists>var vs. \<not> m \<le> int (iterations ?st1)
      \<and> length (assignment ?st1) \<noteq> length (variables c)
      \<and> select_unassigned_variable c (assignment ?st1) = Inr (Some var)
      \<and> map_of (domains c) var = Some vs")
    case True
    then obtain var vs where a: "\<not> m \<le> int (iterations ?st1)"
      and b: "length (assignment ?st1) \<noteq> length (variables c)"
      and s: "select_unassigned_variable c (assignment ?st1) = Inr (Some var)"
      and d: "map_of (domains c) var = Some vs" by blast
    have eq: "backtrack c m (Suc depth) st = try_values c m depth var vs ?st1"
      using a b s d by (simp add: Let_def)
    from select_Some [OF s] have v: "var \<in> set (variables c)"
      and u: "map_of (assignment ?st1) var = None" by simp_all
    have k: "card (set (variables c) - fst ` set (assignment ?st1)) \<le> depth"
      using "2.prems" by simp
    from "2.IH" [OF refl a b s refl d v u k] eq show ?thesis by simp
  next
    case False
    then have "\<exists>out. backtrack c m (Suc depth) st = Some (out, ?st1)"
      by (auto simp: Let_def split: if_splits sum.splits option.splits)
    then show ?thesis by auto
  qed
next
  case (3 c m depth var st)
  then show ?case by simp
next
  case (4 c m depth var val rest st)
  show ?case
  proof (cases "is_consistent c (assignment st) var val")
    case (Inl e)
    then show ?thesis by simp
  next
    case (Inr b)
    show ?thesis
    proof (cases b)
      case False
      then have bF: "b = False" by simp
      from "4.IH"(3) [OF Inr bF "4.prems"] Inr bF show ?thesis by simp
    next
      case True
      from True have bT: "b = True" by simp
      let ?st1 = "set_assignment (AList.update var val (assignment st)) st"
      have "card (set (variables c) - fst ` set (assignment ?st1)) < depth"
        using unassigned_shrinks [OF "4.prems"(1,2), of val] "4.prems"(3) by simp
      from "4.IH"(1) [OF Inr bT this] obtain o2 st2 where
        r: "backtrack c m depth ?st1 = Some (o2, st2)"
        and rst: "o2 = Returned False \<longrightarrow> assignment st2 = assignment ?st1" by blast
      show ?thesis
      proof (cases "o2 = Returned False")
        case True
        with rst have a2: "assignment st2 = AList.update var val (assignment st)" by simp
        then have nn: "map_of (assignment st2) var \<noteq> None" by (simp add: update_conv')
        let ?st3 = "set_assignment (AList.delete var (assignment st2)) st2"
        have a3: "assignment ?st3 = assignment st"
          using a2 "4.prems"(2) by (simp add: delete_update_fresh)
        from r True have r': "backtrack c m depth ?st1 = Some (Returned False, st2)" by simp
        have p2: "map_of (assignment ?st3) var = None" using a3 "4.prems"(2) by simp
        have p3: "card (set (variables c) - fst ` set (assignment ?st3)) \<le> depth"
          using a3 "4.prems"(3) by simp
        from "4.IH"(2) [OF Inr bT r' refl refl refl nn "4.prems"(1) p2 p3]
        obtain out st' where "try_values c m depth var rest ?st3 = Some (out, st')"
          and "out = Returned False \<longrightarrow> assignment st' = assignment ?st3" by blast
        moreover have "try_values c m depth var (val # rest) st
                         = try_values c m depth var rest ?st3"
          using Inr bT r' nn by auto
        ultimately show ?thesis using a3 by simp
      next
        case False
        then have "try_values c m depth var (val # rest) st = Some (o2, st2)"
          using Inr bT r by (cases o2) (auto split: bool.splits)
        with False show ?thesis by simp
      qed
    qed
  qed
qed

lemma backtracking_search_returns:
  "\<exists>out st. backtracking_search c m = Some (out, st)
      \<and> (out = Returned False \<longrightarrow> assignment st = [])"
proof -
  have "card (set (variables c) - fst ` set (assignment initial_state))
          < Suc (length (variables c))"
    by (simp add: initial_state_def card_length less_Suc_eq_le)
  from search_returns(1) [OF this, of m] show ?thesis
    by (simp add: backtracking_search_def initial_state_def)
qed

lemma foldl_update_keys:
  "fst ` set (foldl (\<lambda>d r. AList.update (k r) (f r) d) acc rows) = fst ` set acc \<union> k ` set rows"
  by (induction rows arbitrary: acc) (auto simp: dom_update)

lemma parse_courses_keys: "fst ` set (parse_courses rows) = CourseID ` set rows"
  by (simp add: parse_courses_def foldl_update_keys)

lemma known_course:
  "(\<exists>y. map_of (parse_courses rows) cid = Some y) = (cid \<in> CourseID ` set rows)"
proof -
  have "(map_of (parse_courses rows) cid \<noteq> None) = (cid \<in> CourseID ` set rows)"
    by (simp only: map_of_eq_None_iff parse_courses_keys not_not)
  then show ?thesis by simp
qed

lemma constructed_variables:
  assumes "TimetableCSP d = Inr c"
  shows "variables c =
     concat (map (\<lambda>(sid, sdata). map (\<lambda>cid. sid @ ''_'' @ cid)
                    (filter (\<lambda>cid. cid \<in> CourseID ` set (courses_df d)) (s_courses sdata)))
                 (parse_sections (sections_df d)))"
proof -
  from constructor_returns [of d] assms obtain ds where
    "c = (create_variables (parse_data d))\<lparr>domains := ds\<rparr>" by auto
  then have "variables c = variables (create_variables (parse_data d))" by simp
  also have "\<dots> = concat (map (\<lambda>(sid, sdata). map (\<lambda>cid. sid @ ''_'' @ cid)
                    (filter (\<lambda>cid. map_of (parse_courses (courses_df d)) cid \<noteq> None)
                       (s_courses sdata)))
                 (parse_sections (sections_df d)))"
    by (simp add: create_variables_def add_variables_variables parse_data_def)
  finally show ?thesis by (simp add: known_course)
qed

lemma constructed_domains:
  assumes "TimetableCSP d = Inr c" and "v \<in> set (variables c)"
  shows "\<exists>info. map_of (variable_info c) v = Some info
           \<and> map_of (domains c) v = Some (build_domain c info)"
proof -
  let ?cv = "create_variables (parse_data d)"
  from constructor_returns [of d] assms(1) obtain ds where
    c: "c = ?cv\<lparr>domains := ds\<rparr>"
    and look: "\<forall>v. map_of ds v =
           (if v \<in> set (variables ?cv)
            then map_option (build_domain ?cv) (map_of (variable_info ?cv) v)
            else None)" by auto
  have "set (variables (parse_data d)) \<subseteq> dom (map_of (variable_info (parse_data d)))"
    by (simp add: parse_data_def)
  then have "set (variables ?cv) \<subseteq> dom (map_of (variable_info ?cv))"
    unfolding create_variables_def by (rule add_variables_info)
  with assms(2) c obtain info where i: "map_of (variable_info ?cv) v = Some info" by auto
  with look assms(2) c have "map_of ds v = Some (build_domain ?cv info)" by simp
  with i c show ?thesis by (simp add: build_domain_domains_update)
qed

lemma constructed_tables:
  assumes "TimetableCSP d = Inr c"
  shows "rooms c = parse_rooms (rooms_df d)" and "timeslots c = parse_timeslots (timeslots_df d)"
    and "instructor_courses c = parse_instructors (instructors_df d)"
proof -
  from constructor_returns [of d] assms obtain ds where
    c: "c = (create_variables (parse_data d))\<lparr>domains := ds\<rparr>" by auto
  show "rooms c = parse_rooms (rooms_df d)" "timeslots c = parse_timeslots (timeslots_df d)"
    "instructor_courses c = parse_instructors (instructors_df d)"
    by (simp_all add: c create_variables_def add_variables_frame parse_data_def)
qed

lemma suitable_rooms_empty: "(suitable_rooms c t n = []) = (rooms c = [])"
  by (cases "rooms c")
     (auto simp: suitable_rooms_def rooms_type_and_capacity_def rooms_type_only_def Let_def)

lemma qualified_instructors_nonempty: "qualified_instructors c cid \<noteq> []"
  by (simp add: qualified_instructors_def Let_def)

lemma concat_map_empty: "(concat (map f xs) = []) = (\<forall>x \<in> set xs. f x = [])"
  by (induction xs) auto

lemma build_domain_empty: "(build_domain c info = []) = (rooms c = [] \<or> timeslots c = [])"
proof -
  have "(build_domain c info = []) =
          (suitable_rooms c (course_type info) (student_count info) = [] \<or> timeslots c = [])"
    using qualified_instructors_nonempty [of c "course_id info"]
    by (auto simp: build_domain_def concat_map_empty)
  then show ?thesis by (simp add: suitable_rooms_empty)
qed

lemma build_domain_rooms:
  "room ` set (build_domain c info)
     \<subseteq> set (suitable_rooms c (course_type info) (student_count info))"
  by (auto simp: build_domain_def make_value_def)

lemma room_matches_course_eq:
  "room_matches_course room_type crs_type =
     ((lecture_type crs_type \<and> lecture_type room_type)
      \<or> (lab_type crs_type \<and> lab_type room_type)
      \<or> (lecture_type crs_type \<and> lab_type crs_type))"
  by (auto simp: room_matches_course_def lecture_type_def lab_type_def Let_def)

lemma sort_key_head:
  "xs \<noteq> [] \<Longrightarrow>
   \<exists>pre v post rest. sort_key f xs = v # rest \<and> xs = pre @ v # post
      \<and> (\<forall>u \<in> set pre. f v < f u) \<and> (\<forall>u \<in> set post. f v \<le> f u)"
proof (induction xs)
  case Nil
  then show ?case by simp
next
  case (Cons x xs)
  show ?case
  proof (cases "xs = []")
    case True
    have "sort_key f [x] = x # [] \<and> [x] = [] @ x # []
      \<and> (\<forall>u \<in> set []. f x < f u) \<and> (\<forall>u \<in> set []. f x \<le> f u)" by simp
    with True show ?thesis by blast
  next
    case False
    from Cons.IH [OF False] obtain pre v post rest where
      s: "sort_key f xs = v # rest" and xs: "xs = pre @ v # post"
      and lt: "\<forall>u \<in> set pre. f v < f u" and le: "\<forall>u \<in> set post. f v \<le> f u" by blast
    show ?thesis
    proof (cases "f x \<le> f v")
      case True
      have "sort_key f (x # xs) = x # v # rest" using s True by simp
      moreover have "x # xs = [] @ x # xs" by simp
      moreover have "\<forall>u \<in> set xs. f x \<le> f u"
        using True lt le xs by (auto intro: order_trans less_imp_le)
      ultimately show ?thesis by (metis empty_iff list.set(1))
    next
      case False
      then have "sort_key f (x # xs) = v # insort_key f x rest" using s by simp
      moreover have "x # xs = (x # pre) @ v # post" using xs by simp
      moreover have "\<forall>u \<in> set (x # pre). f v < f u" using False lt by auto
      ultimately show ?thesis using le by blast
    qed
  qed
qed

lemma schedule_rows_known:
  "assigned_known c asg \<Longrightarrow>
   \<exists>data. schedule_rows c asg = Inr data
     \<and> list_all2 (\<lambda>(v, x) r. \<exists>info. map_of (variable_info c) v = Some info
                               \<and> r = schedule_row_of info x) asg data"
proof (induction asg)
  case Nil
  then show ?case by simp
next
  case (Cons p asg)
  obtain v x where p: "p = (v, x)" by (cases p)
  from Cons.prems p obtain info where i: "map_of (variable_info c) v = Some info"
    by (auto simp: assigned_known_def)
  from Cons.prems have "assigned_known c asg" by (simp add: assigned_known_def)
  from Cons.IH [OF this] obtain data where d: "schedule_rows c asg = Inr data"
    and l: "list_all2 (\<lambda>(v, x) r. \<exists>info. map_of (variable_info c) v = Some info
                               \<and> r = schedule_row_of info x) asg data" by blast
  have "schedule_rows c (p # asg) = Inr (schedule_row_of info x # data)"
    using p i d by simp
  moreover have "list_all2 (\<lambda>(v, x) r. \<exists>info. map_of (variable_info c) v = Some info
                               \<and> r = schedule_row_of info x) (p # asg)
                    (schedule_row_of info x # data)"
    using p i l by simp
  ultimately show ?case by blast
qed

section \<open>Lemmas on the preference field\<close>

lemma update_map_values:
  "AList.update k (h v) (map (\<lambda>(k, v). (k, h v)) al)
     = map (\<lambda>(k, v). (k, h v)) (AList.update k v al)"
  by (induction al) auto

lemma parse_instructors_forget_aux:
  "foldl (\<lambda>d r. AList.update (InstructorID r)
                     \<lparr>i_name = Name r,
                      i_courses = parse_id_list (QualifiedCourses r),
                      i_preferences = PreferredSlots r\<rparr> d)
         (map (\<lambda>(iid, idata). (iid, idata\<lparr>i_preferences := []\<rparr>)) acc)
         (map (\<lambda>r. r\<lparr>PreferredSlots := []\<rparr>) rows)
   = map (\<lambda>(iid, idata). (iid, idata\<lparr>i_preferences := []\<rparr>))
       (foldl (\<lambda>d r. AList.update (InstructorID r)
                     \<lparr>i_name = Name r,
                      i_courses = parse_id_list (QualifiedCourses r),
                      i_preferences = PreferredSlots r\<rparr> d) acc rows)"
proof (induction rows arbitrary: acc)
  case Nil
  show ?case by simp
next
  case (Cons r rows)
  have "AList.update (InstructorID r)
          \<lparr>i_name = Name r, i_courses = parse_id_list (QualifiedCourses r), i_preferences = []\<rparr>
          (map (\<lambda>(iid, idata). (iid, idata\<lparr>i_preferences := []\<rparr>)) acc)
        = map (\<lambda>(iid, idata). (iid, idata\<lparr>i_preferences := []\<rparr>))
            (AList.update (InstructorID r)
               \<lparr>i_name = Name r, i_courses = parse_id_list (QualifiedCourses r),
                i_preferences = PreferredSlots r\<rparr> acc)"
    using update_map_values [of "InstructorID r" "\<lambda>i. i\<lparr>i_preferences := []\<rparr>"
        "\<lparr>i_name = Name r, i_courses = parse_id_list (QualifiedCourses r),
          i_preferences = PreferredSlots r\<rparr>" acc]
    by simp
  then show ?case using Cons.IH by simp
qed

lemma parse_data_forget: "parse_data (forget_preferences d) = without_preferences (parse_data d)"
  using parse_instructors_forget_aux [of "[]" "instructors_df d"]
  by (simp add: parse_data_def forget_preferences_def without_preferences_def
      parse_instructors_def)

lemma add_section_variables_forget:
  "add_section_variables sid sd cids (c\<lparr>instructor_courses := x\<rparr>)
     = (add_section_variables sid sd cids c)\<lparr>instructor_courses := x\<rparr>"
proof (induction cids arbitrary: c)
  case Nil
  show ?case by simp
next
  case (Cons cid cids)
  show ?case
  proof (cases "map_of (courses c) cid")
    case None
    then show ?thesis by (simp add: Cons.IH)
  next
    case (Some crs)
    let ?c1 = "c\<lparr>variables := variables c @ [sid @ ''_'' @ cid],
                variable_info :=
                  AList.update (sid @ ''_'' @ cid)
                    \<lparr>section_id = sid, course_id = cid,
                     student_count = s_student_count sd,
                     course_type = c_type crs, course_name = c_name crs\<rparr>
                    (variable_info c)\<rparr>"
    have "add_section_variables sid sd (cid # cids) (c\<lparr>instructor_courses := x\<rparr>)
            = add_section_variables sid sd cids (?c1\<lparr>instructor_courses := x\<rparr>)"
      using Some by (cases c) (simp add: Let_def)
    also have "\<dots> = (add_section_variables sid sd cids ?c1)\<lparr>instructor_courses := x\<rparr>"
      by (rule Cons.IH)
    also have "add_section_variables sid sd cids ?c1 = add_section_variables sid sd (cid # cids) c"
      using Some by (simp add: Let_def)
    finally show ?thesis .
  qed
qed

lemma add_variables_forget:
  "add_variables secs (c\<lparr>instructor_courses := x\<rparr>)
     = (add_variables secs c)\<lparr>instructor_courses := x\<rparr>"
  by (induction secs c rule: add_variables.induct) (simp_all add: add_section_variables_forget)

lemma add_variables_instructor_courses:
  "instructor_courses (add_variables secs c) = instructor_courses c"
  by (simp add: add_variables_frame)

lemma create_variables_forget:
  "create_variables (without_preferences c) = without_preferences (create_variables c)"
  by (simp add: create_variables_def without_preferences_def add_variables_forget
      add_variables_frame)

lemma qualified_instructors_forget:
  "qualified_instructors (without_preferences c) cid = qualified_instructors c cid"
proof -
  have f: "filter (\<lambda>(iid, idata). cid \<in> set (i_courses idata))
                  (map (\<lambda>(iid, idata). (iid, idata\<lparr>i_preferences := []\<rparr>)) al)
        = map (\<lambda>(iid, idata). (iid, idata\<lparr>i_preferences := []\<rparr>))
            (filter (\<lambda>(iid, idata). cid \<in> set (i_courses idata)) al)" for al
    by (induction al) auto
  have m: "map fst (map (\<lambda>(iid, idata). (iid, idata\<lparr>i_preferences := []\<rparr>)) al) = map fst al"
    for al :: "(string \<times> instructor_info) list"
    by (induction al) auto
  show ?thesis by (simp add: qualified_instructors_def without_preferences_def f m)
qed

lemma make_value_forget: "make_value (without_preferences c) r s i = make_value c r s i"
proof -
  have "map_of (map (\<lambda>(iid, idata). (iid, idata\<lparr>i_preferences := []\<rparr>)) al) i
          = map_option (\<lambda>idata. idata\<lparr>i_preferences := []\<rparr>) (map_of al i)" for al
    by (induction al) auto
  from this [of "instructor_courses c"] show ?thesis
    by (cases "map_of (instructor_courses c) i")
       (simp_all add: make_value_def without_preferences_def)
qed

lemma suitable_rooms_forget:
  "suitable_rooms (without_preferences c) t n = suitable_rooms c t n"
  by (simp add: suitable_rooms_def rooms_type_and_capacity_def rooms_type_only_def
      without_preferences_def)

lemma build_domain_forget: "build_domain (without_preferences c) info = build_domain c info"
  by (simp add: build_domain_def qualified_instructors_forget make_value_forget
      suitable_rooms_forget) (simp add: without_preferences_def)

lemma without_preferences_domains_update:
  "(without_preferences c)\<lparr>domains := ds\<rparr> = without_preferences (c\<lparr>domains := ds\<rparr>)"
  by (simp add: without_preferences_def)

lemma add_domains_forget:
  "add_domains vs (without_preferences c) = map_sum id without_preferences (add_domains vs c)"
proof (induction vs arbitrary: c)
  case Nil
  show ?case by simp
next
  case (Cons v vs)
  have vi: "variable_info (without_preferences c) = variable_info c"
    and dm: "domains (without_preferences c) = domains c"
    by (simp_all add: without_preferences_def)
  show ?case
  proof (cases "map_of (variable_info c) v")
    case None
    then show ?thesis by (simp add: vi)
  next
    case (Some info)
    then show ?thesis
      by (simp add: vi dm build_domain_forget without_preferences_domains_update Cons.IH)
  qed
qed

lemma TimetableCSP_forget:
  "TimetableCSP (forget_preferences d) = map_sum id without_preferences (TimetableCSP d)"
proof -
  have "variables (without_preferences c) = variables c" for c
    by (simp add: without_preferences_def)
  then show ?thesis
    by (simp add: TimetableCSP_def create_domains_def parse_data_forget create_variables_forget
        add_domains_forget)
qed

lemma is_consistent_loop_forget:
  "is_consistent_loop (c\<lparr>instructor_courses := x\<rparr>) val sid asg = is_consistent_loop c val sid asg"
  by (induction asg) (auto split: option.splits)

lemma is_consistent_forget:
  "is_consistent (c\<lparr>instructor_courses := x\<rparr>) asg var val = is_consistent c asg var val"
  by (simp add: is_consistent_def is_consistent_loop_forget split: option.splits)

lemma select_forget:
  "select_unassigned_variable (c\<lparr>instructor_courses := x\<rparr>) asg
     = select_unassigned_variable c asg"
proof -
  have dsz: "domain_size (c\<lparr>instructor_courses := x\<rparr>) = domain_size c"
    by (simp add: fun_eq_iff domain_size_def)
  have ds: "domains (c\<lparr>instructor_courses := x\<rparr>) = domains c"
    and vs: "variables (c\<lparr>instructor_courses := x\<rparr>) = variables c" by simp_all
  show ?thesis unfolding select_unassigned_variable_def by (simp only: dsz ds vs)
qed

lemma search_forget:
  shows "backtrack (c\<lparr>instructor_courses := x\<rparr>) m n st = backtrack c m n st"
    and "try_values (c\<lparr>instructor_courses := x\<rparr>) m n var vals st = try_values c m n var vals st"
proof (induction c m n st and c m n var vals st rule: backtrack_try_values.induct)
  case (1 c m st)
  show ?case by simp
next
  case (2 c m depth st)
  show ?case
    using "2.IH"
    by (simp add: Let_def select_forget split: sum.splits option.splits)
next
  case (3 c m depth var st)
  show ?case by simp
next
  case (4 c m depth var val rest st)
  let ?c' = "c\<lparr>instructor_courses := x\<rparr>"
  let ?st1 = "set_assignment (AList.update var val (assignment st)) st"
  show ?case
  proof (cases "is_consistent c (assignment st) var val")
    case (Inl e)
    then show ?thesis by (simp add: is_consistent_forget)
  next
    case (Inr b)
    show ?thesis
    proof (cases b)
      case False
      then have bF: "b = False" by simp
      from "4.IH"(3) [OF Inr bF] Inr bF show ?thesis by (simp add: is_consistent_forget)
    next
      case True
      from True have bT: "b = True" by simp
      from Inr bT have ok: "is_consistent c (assignment st) var val = Inr True" by simp
      have e1: "backtrack ?c' m depth ?st1 = backtrack c m depth ?st1"
        by (rule "4.IH"(1) [OF Inr bT])
      show ?thesis
      proof (cases "backtrack c m depth ?st1")
        case None
        with ok e1 show ?thesis by (simp add: is_consistent_forget)
      next
        case (Some p)
        obtain o2 st2 where p: "p = (o2, st2)" by (cases p)
        show ?thesis
        proof (cases "o2 = Returned False \<and> map_of (assignment st2) var \<noteq> None")
          case True
          then have o2: "o2 = Returned False" and nn: "map_of (assignment st2) var \<noteq> None"
            by simp_all
          from Some p o2 have r: "backtrack c m depth ?st1 = Some (Returned False, st2)"
            by simp
          have e2: "try_values ?c' m depth var rest
                      (set_assignment (AList.delete var (assignment st2)) st2)
                    = try_values c m depth var rest
                      (set_assignment (AList.delete var (assignment st2)) st2)"
            by (rule "4.IH"(2) [OF Inr bT r refl refl refl nn])
          have "try_values ?c' m depth var (val # rest) st
                  = try_values ?c' m depth var rest
                      (set_assignment (AList.delete var (assignment st2)) st2)"
            using ok e1 r nn by (auto simp: is_consistent_forget)
          moreover have "try_values c m depth var (val # rest) st
                  = try_values c m depth var rest
                      (set_assignment (AList.delete var (assignment st2)) st2)"
            using ok r nn by auto
          ultimately show ?thesis using e2 by simp
        next
          case False
          show ?thesis
            using False ok e1 Some p
            by (cases o2) (auto simp: is_consistent_forget split: bool.splits)
        qed
      qed
    qed
  qed
qed

lemma backtracking_search_forget:
  "backtracking_search (without_preferences c) m = backtracking_search c m"
  by (simp add: backtracking_search_def without_preferences_def search_forget
      del: backtrack.simps)

section \<open>Lemmas on the counter and the trail\<close>

text \<open>Every call of \<^verbatim>\<open>backtrack\<close> that returns has raised the counter.\<close>

lemma try_values_iterations:
  "try_values c m n var vals st = Some (out, st') \<Longrightarrow> iterations st \<le> iterations st'"
  by (rule search_preserves(2) [where G = "\<lambda>c s. iterations st \<le> iterations s"]) auto

lemma backtrack_iterations:
  assumes "backtrack c m n st = Some (out, st')"
  shows "iterations st < iterations st'"
proof (cases n)
  case 0
  with assms show ?thesis by simp
next
  case (Suc depth)
  let ?st1 = "st\<lparr>iterations := iterations st + 1\<rparr>"
  show ?thesis
  proof (cases "\<exists>var vs. \<not> m \<le> int (iterations ?st1)
      \<and> length (assignment ?st1) \<noteq> length (variables c)
      \<and> select_unassigned_variable c (assignment ?st1) = Inr (Some var)
      \<and> map_of (domains c) var = Some vs")
    case True
    then obtain var vs where a: "\<not> m \<le> int (iterations ?st1)"
      and b: "length (assignment ?st1) \<noteq> length (variables c)"
      and s: "select_unassigned_variable c (assignment ?st1) = Inr (Some var)"
      and d: "map_of (domains c) var = Some vs" by blast
    from assms Suc a b s d have "try_values c m depth var vs ?st1 = Some (out, st')"
      by (simp add: Let_def)
    from try_values_iterations [OF this] show ?thesis by simp
  next
    case False
    with assms Suc have "st' = ?st1"
      by (auto simp: Let_def split: if_splits sum.splits option.splits)
    then show ?thesis by simp
  qed
qed

text \<open>The trail begins with the assignment of the moment.\<close>

lemma trail_head:
  "backtracking_search c m = Some (out, st) \<Longrightarrow> \<exists>earlier. trail st = assignment st # earlier"
proof -
  assume r: "backtracking_search c m = Some (out, st)"
  show ?thesis
  proof (rule search_preserves(1) [where G = "\<lambda>c s. \<exists>earlier. trail s = assignment s # earlier"])
    show "backtrack c m (Suc (length (variables c))) initial_state = Some (out, st)"
      using r by (simp add: backtracking_search_def)
  qed (auto simp: initial_state_def)
qed

text \<open>Every assignment of the trail is free of clashes.\<close>

lemma trail_clash_free:
  assumes r: "backtracking_search c m = Some (out, st)"
  shows "\<forall>a \<in> set (trail st). clash_free c a"
proof -
  let ?G = "\<lambda>c st. clash_free c (assignment st) \<and> (\<forall>a \<in> set (trail st). clash_free c a)"
  have init: "?G c initial_state"
    by (simp add: initial_state_def clash_free_def assigned_known_def no_room_clash_def
        no_instructor_clash_def no_section_clash_def)
  have "?G c st"
  proof (rule search_preserves(1) [where G = ?G])
    show "backtrack c m (Suc (length (variables c))) initial_state = Some (out, st)"
      using r by (simp add: backtracking_search_def)
    show "?G c initial_state" by (rule init)
  next
    fix c and st :: search_state assume "?G c st"
    then show "?G c (st\<lparr>iterations := iterations st + 1\<rparr>)" by simp
  next
    fix c and st :: search_state and var val
    assume "?G c st" "is_consistent c (assignment st) var val = Inr True"
    then show "?G c (set_assignment (AList.update var val (assignment st)) st)"
      by (simp add: clash_free_update)
  next
    fix c and st :: search_state and var assume "?G c st"
    then show "?G c (set_assignment (AList.delete var (assignment st)) st)"
      by (simp add: clash_free_delete)
  qed
  then show ?thesis by simp
qed

section \<open>The claims\<close>

subsection \<open>C1: no clash at any moment of the search\<close>

lemma scenario_B_run:
  "solve scenario_B 1000 =
     Inr (Some (Returned True,
       \<lparr>assignment =
          [(''S1_C1'', \<lparr>room = ''R1'', timeslot_id = ''T1'', day = ''Sunday'',
              start_time = ''09:00'', end_time = ''10:30'', instructor_id = ''I1'',
              instructor_name = ''Ann''\<rparr>),
           (''S2_C2'', \<lparr>room = ''R2'', timeslot_id = ''T1'', day = ''Sunday'',
              start_time = ''09:00'', end_time = ''10:30'', instructor_id = ''I2'',
              instructor_name = ''Bob''\<rparr>)],
        iterations = 3,
        trail =
          [[(''S1_C1'', \<lparr>room = ''R1'', timeslot_id = ''T1'', day = ''Sunday'',
              start_time = ''09:00'', end_time = ''10:30'', instructor_id = ''I1'',
              instructor_name = ''Ann''\<rparr>),
            (''S2_C2'', \<lparr>room = ''R2'', timeslot_id = ''T1'', day = ''Sunday'',
              start_time = ''09:00'', end_time = ''10:30'', instructor_id = ''I2'',
              instructor_name = ''Bob''\<rparr>)],
           [(''S1_C1'', \<lparr>room = ''R1'', timeslot_id = ''T1'', day = ''Sunday'',
              start_time = ''09:00'', end_time = ''10:30'', instructor_id = ''I1'',
              instructor_name = ''Ann''\<rparr>)],
           []]\<rparr>))"
  by code_simp

text \<open>
  C1. For every object and every budget, \<^verbatim>\<open>backtracking_search\<close> returns, and the
  assignment it leaves (the head of the trail) as well as every value the assignment took
  on the way (each state after an assign or an unassign, recorded in \<open>trail\<close>) has no
  two distinct variables in the same room at the same time slot, no two with the same
  instructor other than the placeholder at the same time slot, and no two of the same
  section at the same time slot.
\<close>

theorem search_never_clashes:
  "\<exists>out st earlier. backtracking_search c max_iterations = Some (out, st)
     \<and> trail st = assignment st # earlier
     \<and> clash_free c (assignment st)
     \<and> (\<forall>a \<in> set (trail st). clash_free c a)"
proof -
  let ?G = "\<lambda>c st. clash_free c (assignment st) \<and> (\<forall>a \<in> set (trail st). clash_free c a)"
  from backtracking_search_returns obtain out st where
    r: "backtracking_search c max_iterations = Some (out, st)" by blast
  have init: "?G c initial_state"
    by (simp add: initial_state_def clash_free_def assigned_known_def no_room_clash_def
        no_instructor_clash_def no_section_clash_def)
  have "?G c st"
  proof (rule search_preserves(1) [where G = ?G])
    show "backtrack c max_iterations (Suc (length (variables c))) initial_state = Some (out, st)"
      using r by (simp add: backtracking_search_def)
    show "?G c initial_state" by (rule init)
  next
    fix c and st :: search_state assume "?G c st"
    then show "?G c (st\<lparr>iterations := iterations st + 1\<rparr>)" by simp
  next
    fix c and st :: search_state and var val
    assume "?G c st" "is_consistent c (assignment st) var val = Inr True"
    then show "?G c (set_assignment (AList.update var val (assignment st)) st)"
      by (simp add: clash_free_update)
  next
    fix c and st :: search_state and var assume "?G c st"
    then show "?G c (set_assignment (AList.delete var (assignment st)) st)"
      by (simp add: clash_free_delete)
  qed
  with r trail_head [OF r] show ?thesis by blast
qed

theorem search_never_clashes_witness:
  "\<exists>c st. TimetableCSP scenario_B = Inr c
     \<and> backtracking_search c 1000 = Some (Returned True, st)
     \<and> map fst (assignment st) = [''S1_C1'', ''S2_C2'']
     \<and> length (trail st) = 3
     \<and> clash_free c (assignment st)
     \<and> (\<forall>a \<in> set (trail st). clash_free c a)"
proof -
  from constructor_returns obtain c where c: "TimetableCSP scenario_B = Inr c" by blast
  from search_never_clashes [of c 1000] obtain out st where
    r: "backtracking_search c 1000 = Some (out, st)"
    and inv: "clash_free c (assignment st)" "\<forall>a \<in> set (trail st). clash_free c a" by blast
  from scenario_B_run c r have "out = Returned True"
    "map fst (assignment st) = [''S1_C1'', ''S2_C2'']" "length (trail st) = 3"
    by (auto simp: solve_def)
  with c r inv show ?thesis by (intro exI [of _ c] exI [of _ st]) simp
qed

subsection \<open>C3: what a failed search leaves to the caller\<close>

lemma scenario_A_run:
  "solve scenario_A 1000 =
     Inr (Some (Returned False,
       \<lparr>assignment = [],
        iterations = 2,
        trail =
          [[],
           [(''S1_C1'', \<lparr>room = ''R1'', timeslot_id = ''T1'', day = ''Sunday'',
              start_time = ''09:00'', end_time = ''10:30'', instructor_id = ''I1'',
              instructor_name = ''Ann''\<rparr>)],
           []]\<rparr>))"
  by code_simp

text \<open>
  After a search that returns \<^verbatim>\<open>False\<close>, whatever the object and the budget, nothing is
  assigned: every tentative assignment has been undone.
\<close>

lemma failed_search_leaves_nothing_assigned:
  "backtracking_search c max_iterations = Some (Returned False, st) \<Longrightarrow> assignment st = []"
  using backtracking_search_returns [of c max_iterations] by auto

text \<open>
  The same at the budget. With one variable, two candidates and a budget of 2, each
  candidate gives a complete assignment; the next call stops at the budget before it
  looks at the assignment, and the assignment is undone.
\<close>

lemma scenario_budget_run:
  "solve scenario_budget 2 =
     Inr (Some (Returned False,
       \<lparr>assignment = [],
        iterations = 3,
        trail =
          [[],
           [(''S1_C1'', \<lparr>room = ''R1'', timeslot_id = ''T2'', day = ''Sunday'',
              start_time = ''10:45'', end_time = ''12:15'', instructor_id = ''UNASSIGNED'',
              instructor_name = ''Unassigned''\<rparr>)],
           [],
           [(''S1_C1'', \<lparr>room = ''R1'', timeslot_id = ''T1'', day = ''Sunday'',
              start_time = ''09:00'', end_time = ''10:30'', instructor_id = ''UNASSIGNED'',
              instructor_name = ''Unassigned''\<rparr>)],
           []]\<rparr>))"
  by code_simp

lemma budget_discards_complete_assignment:
  "\<exists>c st a. TimetableCSP scenario_budget = Inr c
     \<and> backtracking_search c 2 = Some (Returned False, st)
     \<and> assignment st = []
     \<and> a \<in> set (trail st) \<and> length a = length (variables c) \<and> clash_free c a"
proof -
  let ?a = "[(''S1_C1'', \<lparr>room = ''R1'', timeslot_id = ''T1'', day = ''Sunday'',
              start_time = ''09:00'', end_time = ''10:30'', instructor_id = ''UNASSIGNED'',
              instructor_name = ''Unassigned''\<rparr>)]"
  from constructor_returns obtain c where c: "TimetableCSP scenario_budget = Inr c" by blast
  with scenario_budget_run obtain st where
    r: "backtracking_search c 2 = Some (Returned False, st)"
    and e: "assignment st = []" and t: "?a \<in> set (trail st)"
    by (auto simp: solve_def)
  have v: "map_sum id variables (TimetableCSP scenario_budget) = Inr [''S1_C1'']"
    by code_simp
  with c have l: "length ?a = length (variables c)" by simp
  from trail_clash_free [OF r] t have f: "clash_free c ?a" by blast
  from c r e t l f show ?thesis
    by (intro exI [of _ c] exI [of _ st] exI [of _ ?a]) simp
qed

text \<open>
  C3. The claim says that a search that ends without a complete assignment leaves the
  partial assignment it built to the caller, and the code reports it so: after a failure
  the method prints \<^verbatim>\<open>Assigned: N/M\<close> and \<^verbatim>\<open>main\<close> prints
  \<^verbatim>\<open>Partial assignment: N/M variables\<close>, both from \<^verbatim>\<open>self.assignment\<close>. In scenario A the
  search assigns \<^verbatim>\<open>S1_C1\<close>, finds no value for \<^verbatim>\<open>S1_C2\<close>, undoes the assignment and returns
  \<^verbatim>\<open>False\<close>: the partial assignment it built is in the trail, and the assignment left to
  the caller is empty.
\<close>

theorem failed_search_discards_partial_assignment:
  "\<exists>st. solve scenario_A 1000 = Inr (Some (Returned False, st))
     \<and> assignment st = []
     \<and> [(''S1_C1'', \<lparr>room = ''R1'', timeslot_id = ''T1'', day = ''Sunday'',
              start_time = ''09:00'', end_time = ''10:30'', instructor_id = ''I1'',
              instructor_name = ''Ann''\<rparr>)] \<in> set (trail st)"
  by (simp add: scenario_A_run)

subsection \<open>C4: the iteration budget\<close>

text \<open>
  C4. The counter does grow with every call (lemma \<open>backtrack_iterations\<close>) and the
  search does return (lemma \<open>backtracking_search_returns\<close>), but the claim also says
  that the counter never exceeds \<^verbatim>\<open>max_iterations\<close> when the search returns. With one variable that has two candidates and a budget of 2, the second call
  of \<^verbatim>\<open>backtrack\<close> reaches the budget and returns \<^verbatim>\<open>False\<close>; the loop of the first call
  takes this for an ordinary dead end, undoes the assignment, tries the second candidate
  and calls \<^verbatim>\<open>backtrack\<close> a third time: the counter ends at 3.
\<close>

theorem budget_overrun:
  "solve scenario_budget 2 =
     Inr (Some (Returned False,
       \<lparr>assignment = [],
        iterations = 3,
        trail =
          [[],
           [(''S1_C1'', \<lparr>room = ''R1'', timeslot_id = ''T2'', day = ''Sunday'',
              start_time = ''10:45'', end_time = ''12:15'', instructor_id = ''UNASSIGNED'',
              instructor_name = ''Unassigned''\<rparr>)],
           [],
           [(''S1_C1'', \<lparr>room = ''R1'', timeslot_id = ''T1'', day = ''Sunday'',
              start_time = ''09:00'', end_time = ''10:30'', instructor_id = ''UNASSIGNED'',
              instructor_name = ''Unassigned''\<rparr>)],
           []]\<rparr>))"
  by code_simp

subsection \<open>C2: a course id that is not in the catalog\<close>

text \<open>
  C2, as stated, fails. The section of this catalog lists \<^verbatim>\<open>C9\<close>, which is no course;
  the constructor raises nothing and returns an object with the variable \<^verbatim>\<open>S1_C1\<close>.
\<close>

theorem dangling_course_not_rejected:
  "references_absent_course scenario_dangling
   \<and> map_sum id variables (TimetableCSP scenario_dangling) = Inr [''S1_C1'']"
  by code_simp

text \<open>
  C2, amended. The constructor never fails on a course id that is absent from the course
  catalog: it returns an object, and it skips the pair silently. The variables are the
  names of exactly the (section, course) pairs whose course id is in the catalog, section
  by section and in the order of each section's list.
\<close>

theorem dangling_course_is_skipped:
  "\<exists>c. TimetableCSP d = Inr c
     \<and> variables c =
         concat (map (\<lambda>(sid, sdata). map (\<lambda>cid. sid @ ''_'' @ cid)
                        (filter (\<lambda>cid. cid \<in> CourseID ` set (courses_df d)) (s_courses sdata)))
                     (parse_sections (sections_df d)))"
  using constructor_returns [of d] constructed_variables [of d] by blast

subsection \<open>C5: a variable without candidates\<close>

text \<open>
  C5, as stated, fails. Without rooms the constructor raises nothing and returns an object
  in which \<^verbatim>\<open>S1_C1\<close> has the empty domain, and the search runs on it (one call, no
  candidate, \<^verbatim>\<open>False\<close>).
\<close>

theorem empty_domain_not_rejected:
  "map_sum id domains (TimetableCSP scenario_no_rooms) = Inr [(''S1_C1'', [])]
   \<and> solve scenario_no_rooms 1000
       = Inr (Some (Returned False, \<lparr>assignment = [], iterations = 1, trail = [[]]\<rparr>))"
  by code_simp

text \<open>
  C5, amended. The constructor never fails on an empty domain. Every variable gets a
  domain, and that domain is empty exactly when the room catalog or the time slot catalog
  is empty: such a variable is handed to the search as it is.
\<close>

theorem empty_catalog_gives_empty_domains:
  "\<exists>c. TimetableCSP d = Inr c
     \<and> (\<forall>v \<in> set (variables c). \<exists>vals. map_of (domains c) v = Some vals
            \<and> ((vals = []) = (rooms_df d = [] \<or> timeslots_df d = [])))"
proof -
  from constructor_returns obtain c where c: "TimetableCSP d = Inr c" by blast
  have "\<exists>vals. map_of (domains c) v = Some vals
            \<and> ((vals = []) = (rooms_df d = [] \<or> timeslots_df d = []))"
    if "v \<in> set (variables c)" for v
  proof -
    from constructed_domains [OF c that] obtain info where
      "map_of (domains c) v = Some (build_domain c info)" by blast
    moreover have "(build_domain c info = []) = (rooms_df d = [] \<or> timeslots_df d = [])"
      by (simp add: build_domain_empty constructed_tables [OF c] parse_rooms_def
          parse_timeslots_def foldl_update_nonempty)
    ultimately show ?thesis by simp
  qed
  with c show ?thesis by blast
qed

theorem empty_catalog_gives_empty_domains_witness:
  "\<exists>c. TimetableCSP scenario_no_rooms = Inr c
     \<and> variables c = [''S1_C1'']
     \<and> map_of (domains c) ''S1_C1'' = Some []"
proof -
  have r: "rooms_df scenario_no_rooms = []" by (simp add: scenario_no_rooms_def)
  have v: "map_sum id variables (TimetableCSP scenario_no_rooms) = Inr [''S1_C1'']"
    by code_simp
  from empty_catalog_gives_empty_domains [of scenario_no_rooms] obtain c where
    c: "TimetableCSP scenario_no_rooms = Inr c"
    and a: "\<forall>v \<in> set (variables c). \<exists>vals. map_of (domains c) v = Some vals
            \<and> ((vals = []) = (rooms_df scenario_no_rooms = []
                  \<or> timeslots_df scenario_no_rooms = []))" by blast
  from v c have vs: "variables c = [''S1_C1'']" by simp
  with a r have "map_of (domains c) ''S1_C1'' = Some []" by simp
  with c vs show ?thesis by blast
qed

subsection \<open>C6: no empty domain when there is a room and a time slot\<close>

lemma scenario_fallback_run:
  "map_sum id (\<lambda>c. (variables c, map (\<lambda>(v, i). (v, course_type i, student_count i)) (variable_info c),
       length (rooms c), rooms_type_only c ''Lab'',
       map (\<lambda>(v, vals). (v, map room vals)) (domains c))) (TimetableCSP scenario_fallback)
   = Inr ([''S1_C1''], [(''S1_C1'', ''Lab'', 30)], 11, [],
          [(''S1_C1'', [''R01'', ''R02'', ''R03'', ''R04'', ''R05'', ''R06'', ''R07'', ''R08'',
                       ''R09'', ''R10''])])"
  by code_simp

text \<open>
  C6. When the catalog has at least one room and at least one time slot, the constructor
  returns an object in which every variable has a non-empty domain whose rooms are the
  variable's suitable rooms; and when no room matches the type of the variable's course
  (so that matching on type and capacity fails entirely), the suitable rooms are the
  first ten rooms of the catalog, at most ten rooms.
\<close>

theorem domains_nonempty_fallback_capped:
  assumes "rooms_df d \<noteq> []" and "timeslots_df d \<noteq> []"
  shows "\<exists>c. TimetableCSP d = Inr c
     \<and> (\<forall>v \<in> set (variables c). \<exists>info vals.
           map_of (variable_info c) v = Some info
         \<and> map_of (domains c) v = Some vals
         \<and> vals \<noteq> []
         \<and> room ` set vals \<subseteq> set (suitable_rooms c (course_type info) (student_count info))
         \<and> (rooms_type_only c (course_type info) = [] \<longrightarrow>
              suitable_rooms c (course_type info) (student_count info)
                = take 10 (map fst (rooms c))
              \<and> length (suitable_rooms c (course_type info) (student_count info)) \<le> 10))"
proof -
  from constructor_returns obtain c where c: "TimetableCSP d = Inr c" by blast
  have ne: "rooms c \<noteq> []" "timeslots c \<noteq> []"
    using assms by (simp_all add: constructed_tables [OF c] parse_rooms_def
        parse_timeslots_def foldl_update_nonempty)
  have "\<exists>info vals. map_of (variable_info c) v = Some info
         \<and> map_of (domains c) v = Some vals
         \<and> vals \<noteq> []
         \<and> room ` set vals \<subseteq> set (suitable_rooms c (course_type info) (student_count info))
         \<and> (rooms_type_only c (course_type info) = [] \<longrightarrow>
              suitable_rooms c (course_type info) (student_count info)
                = take 10 (map fst (rooms c))
              \<and> length (suitable_rooms c (course_type info) (student_count info)) \<le> 10)"
    if "v \<in> set (variables c)" for v
  proof -
    from constructed_domains [OF c that] obtain info where
      i: "map_of (variable_info c) v = Some info"
      and dm: "map_of (domains c) v = Some (build_domain c info)" by blast
    have 1: "build_domain c info \<noteq> []" using ne by (simp add: build_domain_empty)
    have 2: "rooms_type_only c (course_type info) = [] \<longrightarrow>
              suitable_rooms c (course_type info) (student_count info)
                = take 10 (map fst (rooms c))
              \<and> length (suitable_rooms c (course_type info) (student_count info)) \<le> 10"
    proof
      assume e: "rooms_type_only c (course_type info) = []"
      then have "rooms_type_and_capacity c (course_type info) (student_count info) = []"
        by (auto simp: rooms_type_only_def rooms_type_and_capacity_def filter_empty_conv)
      with e have "suitable_rooms c (course_type info) (student_count info)
                = take 10 (map fst (rooms c))"
        by (simp add: suitable_rooms_def)
      then show "suitable_rooms c (course_type info) (student_count info)
                = take 10 (map fst (rooms c))
              \<and> length (suitable_rooms c (course_type info) (student_count info)) \<le> 10"
        by simp
    qed
    from i dm 1 2 build_domain_rooms [of c info] show ?thesis by blast
  qed
  with c show ?thesis by blast
qed

theorem domains_nonempty_fallback_capped_witness:
  "rooms_df scenario_fallback \<noteq> [] \<and> timeslots_df scenario_fallback \<noteq> []
   \<and> (\<exists>c info vals. TimetableCSP scenario_fallback = Inr c
        \<and> variables c = [''S1_C1'']
        \<and> length (rooms c) = 11
        \<and> map_of (variable_info c) ''S1_C1'' = Some info
        \<and> rooms_type_only c (course_type info) = []
        \<and> map_of (domains c) ''S1_C1'' = Some vals
        \<and> vals \<noteq> []
        \<and> length (suitable_rooms c (course_type info) (student_count info)) \<le> 10)"
proof -
  have r: "rooms_df scenario_fallback \<noteq> []" and t: "timeslots_df scenario_fallback \<noteq> []"
    by (simp_all add: scenario_fallback_def)
  from domains_nonempty_fallback_capped [OF r t] obtain c where
    c: "TimetableCSP scenario_fallback = Inr c"
    and a: "\<forall>v \<in> set (variables c). \<exists>info vals.
           map_of (variable_info c) v = Some info
         \<and> map_of (domains c) v = Some vals
         \<and> vals \<noteq> []
         \<and> room ` set vals \<subseteq> set (suitable_rooms c (course_type info) (student_count info))
         \<and> (rooms_type_only c (course_type info) = [] \<longrightarrow>
              suitable_rooms c (course_type info) (student_count info)
                = take 10 (map fst (rooms c))
              \<and> length (suitable_rooms c (course_type info) (student_count info)) \<le> 10)"
    by blast
  from scenario_fallback_run c have vs: "variables c = [''S1_C1'']"
    and n: "length (rooms c) = 11" and e: "rooms_type_only c ''Lab'' = []"
    and vi: "map (\<lambda>(v, i). (v, course_type i, student_count i)) (variable_info c)
               = [(''S1_C1'', ''Lab'', 30)]"
    by simp_all
  from a vs obtain info vals where i: "map_of (variable_info c) ''S1_C1'' = Some info"
    and dm: "map_of (domains c) ''S1_C1'' = Some vals" and ne: "vals \<noteq> []"
    and cap: "rooms_type_only c (course_type info) = [] \<longrightarrow>
              length (suitable_rooms c (course_type info) (student_count info)) \<le> 10"
    by auto
  from vi i have "course_type info = ''Lab''" by (auto split: prod.splits)
  with e cap have "rooms_type_only c (course_type info) = []"
    "length (suitable_rooms c (course_type info) (student_count info)) \<le> 10" by simp_all
  with r t c vs n i dm ne show ?thesis by blast
qed

subsection \<open>C7: the first pass of room matching\<close>

text \<open>
  What the first pass computes: a room qualifies if and only if its capacity is at least
  the student count and its type suits the course type, where a combined
  lecture-and-lab course is suited by a room of any type.
\<close>

lemma first_pass_room_qualifies:
  "(room_id \<in> set (rooms_type_and_capacity c crs_type students)) =
     (\<exists>room_data. (room_id, room_data) \<in> set (rooms c)
        \<and> ((lecture_type crs_type \<and> lecture_type (r_type room_data))
            \<or> (lab_type crs_type \<and> lab_type (r_type room_data))
            \<or> (lecture_type crs_type \<and> lab_type crs_type))
        \<and> students \<le> r_capacity room_data)"
  by (auto simp: rooms_type_and_capacity_def room_matches_course_eq image_iff)

text \<open>
  C7. The claim lets a combined lecture-and-lab course use either of the two room types,
  as the comment \<^verbatim>\<open>Mixed courses can use either\<close> of \<^verbatim>\<open>_room_matches_course\<close> says. The
  branch under that comment does not look at the room: for a combined course the first
  pass takes the room \<^verbatim>\<open>R1\<close> of type \<^verbatim>\<open>Seminar\<close>, which is neither a lecture-type nor a
  lab-type room and is not compatible in the words of the claim.
\<close>

theorem seminar_room_qualifies:
  "rooms_type_and_capacity (parse_data scenario_seminar) ''Lecture and Lab'' 30 = [''R1'']
   \<and> map_of (rooms (parse_data scenario_seminar)) ''R1''
       = Some \<lparr>r_type = ''Seminar'', r_capacity = 40\<rparr>
   \<and> \<not> type_compatible_as_claimed ''Seminar'' ''Lecture and Lab''"
  by code_simp

subsection \<open>C8: the choice of the next variable\<close>

lemma scenario_mrv_run:
  "map_sum id (\<lambda>c. (variables c, select_unassigned_variable c [],
                     domain_size c ''S1_C1'', domain_size c ''S2_C2''))
     (TimetableCSP scenario_mrv)
   = Inr ([''S1_C1'', ''S2_C2''], Inr (Some ''S2_C2''), 2, 1)"
  by code_simp

text \<open>
  C8. On a constructed object, whenever some variable is unassigned,
  \<^verbatim>\<open>select_unassigned_variable\<close> returns an unassigned variable \<open>v\<close> such that every
  unassigned variable before it in construction order has a strictly larger domain and
  every unassigned variable after it has a domain at least as large: the first one of
  smallest domain size. The size is the length of the domain built by the constructor.
\<close>

theorem select_picks_first_smallest_domain:
  assumes built: "TimetableCSP d = Inr c"
    and some: "filter (\<lambda>v. map_of asg v = None) (variables c) \<noteq> []"
  shows "\<exists>pre v post vals.
       select_unassigned_variable c asg = Inr (Some v)
     \<and> filter (\<lambda>v. map_of asg v = None) (variables c) = pre @ v # post
     \<and> map_of (domains c) v = Some vals
     \<and> domain_size c v = length vals
     \<and> (\<forall>u \<in> set pre. domain_size c v < domain_size c u)
     \<and> (\<forall>u \<in> set post. domain_size c v \<le> domain_size c u)"
proof -
  let ?un = "filter (\<lambda>v. map_of asg v = None) (variables c)"
  have all: "\<forall>v \<in> set ?un. map_of (domains c) v \<noteq> None"
    using constructed_domains [OF built] by auto
  from sort_key_head [OF some, of "domain_size c"] obtain pre v post rest where
    s: "sort_key (domain_size c) ?un = v # rest" and un: "?un = pre @ v # post"
    and lt: "\<forall>u \<in> set pre. domain_size c v < domain_size c u"
    and le: "\<forall>u \<in> set post. domain_size c v \<le> domain_size c u" by blast
  have none: "\<not> (\<exists>v \<in> set ?un. map_of (domains c) v = None)" using all by blast
  have sel: "select_unassigned_variable c asg = Inr (Some v)"
    unfolding select_unassigned_variable_def Let_def
    by (simp only: some none s if_False list.case)
  have "v \<in> set ?un" using un by simp
  with all obtain vals where vals: "map_of (domains c) v = Some vals" by auto
  then have "domain_size c v = length vals" by (simp add: domain_size_def)
  with sel un vals lt le show ?thesis by blast
qed

theorem select_picks_first_smallest_domain_witness:
  "\<exists>c. TimetableCSP scenario_mrv = Inr c
     \<and> filter (\<lambda>v. map_of ([] :: assignment) v = None) (variables c) = [''S1_C1''] @ ''S2_C2'' # []
     \<and> select_unassigned_variable c [] = Inr (Some ''S2_C2'')
     \<and> domain_size c ''S2_C2'' < domain_size c ''S1_C1''"
proof -
  from constructor_returns obtain c where c: "TimetableCSP scenario_mrv = Inr c" by blast
  from scenario_mrv_run c have vs: "variables c = [''S1_C1'', ''S2_C2'']"
    and sel: "select_unassigned_variable c [] = Inr (Some ''S2_C2'')" by simp_all
  have un: "filter (\<lambda>v. map_of ([] :: assignment) v = None) (variables c) = [''S1_C1'', ''S2_C2'']"
    by (simp add: vs)
  then have ne: "filter (\<lambda>v. map_of ([] :: assignment) v = None) (variables c) \<noteq> []" by simp
  from select_picks_first_smallest_domain [OF c ne] obtain pre v post vals where
    all: "select_unassigned_variable c [] = Inr (Some v)
     \<and> filter (\<lambda>v. map_of ([] :: assignment) v = None) (variables c) = pre @ v # post
     \<and> map_of (domains c) v = Some vals
     \<and> domain_size c v = length vals
     \<and> (\<forall>u \<in> set pre. domain_size c v < domain_size c u)
     \<and> (\<forall>u \<in> set post. domain_size c v \<le> domain_size c u)" by blast
  then have s: "select_unassigned_variable c [] = Inr (Some v)"
    and p: "filter (\<lambda>v. map_of ([] :: assignment) v = None) (variables c) = pre @ v # post"
    and lt: "\<forall>u \<in> set pre. domain_size c v < domain_size c u" by blast+
  from s sel have v: "v = ''S2_C2''" by simp
  from p un v have "pre @ ''S2_C2'' # post = [''S1_C1''] @ ''S2_C2'' # []" by simp
  then have "pre = [''S1_C1'']"
    by (cases pre; cases "tl pre"; cases post) auto
  with lt v have "domain_size c ''S2_C2'' < domain_size c ''S1_C1''" by simp
  with c un sel show ?thesis by (intro exI [of _ c]) simp
qed

subsection \<open>C10: the projector\<close>

lemma scenario_B_projection:
  "map_sum id (\<lambda>c. case backtracking_search c 1000 of
                     None \<Rightarrow> None
                   | Some (out, st) \<Rightarrow>
                       Some (map fst (assignment st), assigned_known c (assignment st),
                             generate_schedule_dataframe c (assignment st)))
     (TimetableCSP scenario_B)
   = Inr (Some ([''S1_C1'', ''S2_C2''], True,
       Inr (Some
         [\<lparr>Section_ID = ''S1'', Course_Code = ''C1'', Course_Name = ''Algebra'',
            Activity_Type = ''Lecture'', Day_col = ''Sunday'', Start_Time = ''09:00'',
            End_Time = ''10:30'', Room_col = ''R1'', Instructor_col = ''Ann'',
            Student_Count = 30\<rparr>,
          \<lparr>Section_ID = ''S2'', Course_Code = ''C2'', Course_Name = ''Logic'',
            Activity_Type = ''Lecture'', Day_col = ''Sunday'', Start_Time = ''09:00'',
            End_Time = ''10:30'', Room_col = ''R2'', Instructor_col = ''Bob'',
            Student_Count = 25\<rparr>])))"
  by code_simp

text \<open>
  C10. For the empty assignment \<^verbatim>\<open>generate_schedule_dataframe\<close> returns \<^verbatim>\<open>None\<close>, not an
  empty frame. For a non-empty assignment over variables of the object it returns a frame
  with as many rows as there are assigned variables: the rows are, in sorted order, the
  records made from each assigned variable and its value.
\<close>

theorem projector_none_or_one_row_each:
  "generate_schedule_dataframe c [] = Inr None
   \<and> (asg \<noteq> [] \<longrightarrow> assigned_known c asg \<longrightarrow>
        (\<exists>rows data. generate_schedule_dataframe c asg = Inr (Some rows)
           \<and> length rows = length asg
           \<and> mset rows = mset data
           \<and> list_all2 (\<lambda>(v, x) r. \<exists>info. map_of (variable_info c) v = Some info
                                     \<and> r = schedule_row_of info x) asg data))"
proof (intro conjI impI)
  show "generate_schedule_dataframe c [] = Inr None"
    by (simp add: generate_schedule_dataframe_def)
next
  assume ne: "asg \<noteq> []" and known: "assigned_known c asg"
  from schedule_rows_known [OF known] obtain data where d: "schedule_rows c asg = Inr data"
    and l: "list_all2 (\<lambda>(v, x) r. \<exists>info. map_of (variable_info c) v = Some info
                               \<and> r = schedule_row_of info x) asg data" by blast
  have g: "generate_schedule_dataframe c asg = Inr (Some (sort_key sort_rank data))"
    using ne d by (simp add: generate_schedule_dataframe_def)
  have len: "length (sort_key sort_rank data) = length asg"
    using l by (simp add: list_all2_lengthD)
  have "mset (sort_key sort_rank data) = mset data" by simp
  with g len l show "\<exists>rows data. generate_schedule_dataframe c asg = Inr (Some rows)
           \<and> length rows = length asg
           \<and> mset rows = mset data
           \<and> list_all2 (\<lambda>(v, x) r. \<exists>info. map_of (variable_info c) v = Some info
                                     \<and> r = schedule_row_of info x) asg data" by blast
qed

theorem projector_none_or_one_row_each_witness:
  "\<exists>c out st rows. TimetableCSP scenario_B = Inr c
     \<and> backtracking_search c 1000 = Some (out, st)
     \<and> map fst (assignment st) = [''S1_C1'', ''S2_C2'']
     \<and> assigned_known c (assignment st)
     \<and> generate_schedule_dataframe c (assignment st) = Inr (Some rows)
     \<and> length rows = 2
     \<and> generate_schedule_dataframe c [] = Inr None"
proof -
  from constructor_returns obtain c where c: "TimetableCSP scenario_B = Inr c" by blast
  from backtracking_search_returns obtain out st where
    r: "backtracking_search c 1000 = Some (out, st)" by blast
  from scenario_B_projection c r have ks: "map fst (assignment st) = [''S1_C1'', ''S2_C2'']"
    and known: "assigned_known c (assignment st)" by simp_all
  from ks have ne: "assignment st \<noteq> []" by auto
  from projector_none_or_one_row_each [of c "assignment st"] ne known obtain rows where
    g: "generate_schedule_dataframe c (assignment st) = Inr (Some rows)"
    and l: "length rows = length (assignment st)"
    and n: "generate_schedule_dataframe c [] = Inr None" by blast
  from ks have "length (map fst (assignment st)) = 2" by simp
  with l have "length rows = 2" by simp
  with c r ks known g n show ?thesis
    by (intro exI [of _ c] exI [of _ out] exI [of _ st] exI [of _ rows]) simp
qed

subsection \<open>C9: the preference field is never consulted\<close>

lemma scenario_B_other_preferences_differs:
  "forget_preferences scenario_B = forget_preferences scenario_B_other_preferences
   \<and> scenario_B \<noteq> scenario_B_other_preferences"
  by code_simp

text \<open>
  C9. For two catalogs that differ only in the \<^verbatim>\<open>PreferredSlots\<close> of their instructors,
  the constructor returns two objects that are equal up to the stored preference, with
  the same variables, the same domains and the same variable information, and the search
  gives the same result on both for every budget: the same outcome, the same final
  assignment, the same counter and the same sequence of assignments on the way.
\<close>

theorem preferences_do_not_matter:
  assumes "forget_preferences d = forget_preferences d'"
  shows "\<exists>c c'. TimetableCSP d = Inr c \<and> TimetableCSP d' = Inr c'
     \<and> without_preferences c = without_preferences c'
     \<and> variables c = variables c' \<and> domains c = domains c'
     \<and> variable_info c = variable_info c'
     \<and> backtracking_search c max_iterations = backtracking_search c' max_iterations
     \<and> solve d max_iterations = solve d' max_iterations"
proof -
  from constructor_returns obtain c where c: "TimetableCSP d = Inr c" by blast
  from constructor_returns obtain c' where c': "TimetableCSP d' = Inr c'" by blast
  have "map_sum id without_preferences (TimetableCSP d)
          = map_sum id without_preferences (TimetableCSP d')"
    using assms TimetableCSP_forget [of d] TimetableCSP_forget [of d'] by simp
  with c c' have w: "without_preferences c = without_preferences c'" by simp
  have v: "variables c = variables c'"
    using arg_cong [OF w, of variables] by (simp add: without_preferences_def)
  have dm: "domains c = domains c'"
    using arg_cong [OF w, of domains] by (simp add: without_preferences_def)
  have vi: "variable_info c = variable_info c'"
    using arg_cong [OF w, of variable_info] by (simp add: without_preferences_def)
  have s: "backtracking_search c max_iterations = backtracking_search c' max_iterations"
    using backtracking_search_forget [of c max_iterations]
      backtracking_search_forget [of c' max_iterations] w by simp
  have "solve d max_iterations = solve d' max_iterations"
    using c c' s by (simp add: solve_def)
  with c c' w v dm vi s show ?thesis by blast
qed

theorem preferences_do_not_matter_witness:
  "forget_preferences scenario_B = forget_preferences scenario_B_other_preferences
   \<and> scenario_B \<noteq> scenario_B_other_preferences
   \<and> solve scenario_B 1000 = solve scenario_B_other_preferences 1000
   \<and> (\<exists>c c' st. TimetableCSP scenario_B = Inr c
        \<and> TimetableCSP scenario_B_other_preferences = Inr c'
        \<and> domains c = domains c'
        \<and> backtracking_search c' 1000 = Some (Returned True, st)
        \<and> map fst (assignment st) = [''S1_C1'', ''S2_C2''])"
proof -
  from scenario_B_other_preferences_differs
  have f: "forget_preferences scenario_B = forget_preferences scenario_B_other_preferences"
    and ne: "scenario_B \<noteq> scenario_B_other_preferences" by simp_all
  from preferences_do_not_matter [OF f, of 1000] obtain c c' where
    c: "TimetableCSP scenario_B = Inr c"
    and c': "TimetableCSP scenario_B_other_preferences = Inr c'"
    and dm: "domains c = domains c'"
    and s: "backtracking_search c 1000 = backtracking_search c' 1000"
    and sv: "solve scenario_B 1000 = solve scenario_B_other_preferences 1000" by blast
  from scenario_B_run c s obtain st where
    r: "backtracking_search c' 1000 = Some (Returned True, st)"
    and k: "map fst (assignment st) = [''S1_C1'', ''S2_C2'']"
    by (auto simp: solve_def)
  from f ne sv c c' dm r k show ?thesis
    by (intro conjI exI [of _ c] exI [of _ c'] exI [of _ st]) simp_all
qed

end
